theory Spec2Isabelle
  imports Complex_Main
begin

section \<open>The three-pillars demo application (demo_three_pillars.py)\<close>

text \<open>
  The program is one Python module: module-level state (two packet totals, the rate
  estimator's two variables, two dictionaries of per-entity counters), five pull
  callbacks registered with the metrics SDK, a JSON log helper, and an endless main loop.
  The embedding keeps the module's names. Mutation is explicit state passing over the
  record \<open>app_state\<close>; a Python exception is the left summand of a result.

  What the module takes from its environment is an argument of the model:
  \<^item> every reading of \<open>time.time()\<close> is a \<open>real\<close> argument (Python floats are modelled
    as exact reals);
  \<^item> every call of \<open>random\<close> takes the raw entropy it consumes as a \<open>nat\<close> argument and
    reduces it into the requested range, so that each value of the range, and nothing
    else, can be drawn;
  \<^item> the identity a tracer would give to a new root span is a \<open>nat\<close> argument.
\<close>

subsection \<open>Python values, errors, library functions\<close>

datatype py_error = KeyError | ZeroDivisionError

definition bind_err :: "'e + 'a \<Rightarrow> ('a \<Rightarrow> 'e + 'b) \<Rightarrow> 'e + 'b" where
  "bind_err m f = (case m of Inl e \<Rightarrow> Inl e | Inr x \<Rightarrow> f x)"

text \<open>\<open>int(x)\<close> on a float truncates towards zero.\<close>

definition py_int :: "real \<Rightarrow> int" where
  "py_int x = (if 0 \<le> x then \<lfloor>x\<rfloor> else \<lceil>x\<rceil>)"

text \<open>True division \<open>a / b\<close> raises \<open>ZeroDivisionError\<close> on a zero divisor.\<close>

definition py_truediv :: "real \<Rightarrow> real \<Rightarrow> py_error + real" where
  "py_truediv a b = (if b = 0 then Inl ZeroDivisionError else Inr (a / b))"

text \<open>
  \<open>random.randint(a, b)\<close> is \<open>a + randbelow(b - a + 1)\<close> and \<open>random.choice(xs)\<close> is
  \<open>xs[randbelow(len(xs))]\<close>, where \<open>randbelow(n)\<close> yields some number below \<open>n\<close>. The
  module calls both with constant, non-empty ranges only, so their error cases (an empty
  range, an empty sequence) are not reachable and are left out.
\<close>

definition randbelow :: "nat \<Rightarrow> nat \<Rightarrow> nat" where
  "randbelow n r = r mod n"

definition randint :: "int \<Rightarrow> int \<Rightarrow> nat \<Rightarrow> int" where
  "randint a b r = a + int (randbelow (nat (b - a + 1)) r)"

definition choice :: "'a list \<Rightarrow> nat \<Rightarrow> 'a" where
  "choice xs r = xs ! randbelow (length xs) r"

text \<open>Subscription \<open>d[k]\<close> of a dictionary raises \<open>KeyError\<close> on a missing key.\<close>

definition getitem :: "('k \<rightharpoonup> 'v) \<Rightarrow> 'k \<Rightarrow> py_error + 'v" where
  "getitem d k = (case d k of None \<Rightarrow> Inl KeyError | Some v \<Rightarrow> Inr v)"

subsection \<open>The module's state\<close>

text \<open>
  \<open>src_state\<close> and \<open>dst_state\<close> are dictionaries from an entity's name to a dictionary
  from a field name to an integer. The inner dictionaries are built one per key, so no
  two names share one.
\<close>

type_synonym entity = "string \<rightharpoonup> int"
type_synonym store = "string \<rightharpoonup> entity"

datatype attr = AStr string | AInt int

record span =
  sp_name :: string
  sp_trace_id :: nat
  sp_attrs :: "(string \<times> attr) list"

datatype jvalue = JStr string | JInt int | JNull

type_synonym log_record = "(string \<times> jvalue) list"

text \<open>
  The tracer's context is a stack of open spans, innermost first; a span that ends is
  handed to the exporter (\<open>finished_spans\<close>). The log file is the list of the records
  whose lines were appended to it, oldest first; \<open>sink_writable\<close> says whether a write to
  the file succeeds, \<open>handler_errors\<close> counts the calls of the logging handler's
  \<open>handleError\<close>, and \<open>handler_lock\<close> is the depth to which the handler's re-entrant lock
  is held.
\<close>

record app_state =
  packets_in_total :: int
  packets_out_total :: int
  last_rate_calc :: real
  last_total :: int
  src_state :: store
  dst_state :: store
  span_stack :: "span list"
  finished_spans :: "span list"
  handler_lock :: nat
  sink_writable :: bool
  sink_lines :: "log_record list"
  handler_errors :: nat

datatype number = IntV int | FloatV real

text \<open>\<open>Observation(v, attributes)\<close>: a number and its labels.\<close>

type_synonym observation = "number \<times> (string \<times> string) list"

definition sources :: "string list" where
  "sources = [''source1'', ''source2'', ''source3'', ''source4'', ''source5'']"

definition destinations :: "string list" where
  "destinations = [''dest1'', ''dest2'']"

definition src_entry0 :: entity where
  "src_entry0 = [''packets'' \<mapsto> 0, ''bytes'' \<mapsto> 0, ''last'' \<mapsto> 0]"

definition dst_entry0 :: entity where
  "dst_entry0 = [''packets'' \<mapsto> 0, ''bytes'' \<mapsto> 0]"

text \<open>
  The state once the module's set-up has run, before the main loop: \<open>start\<close> is the
  reading of the clock that initialises \<open>last_rate_calc\<close>, \<open>w\<close> whether the log file
  takes writes.
\<close>

definition init_state :: "real \<Rightarrow> bool \<Rightarrow> app_state" where
  "init_state start w =
     \<lparr> packets_in_total = 0, packets_out_total = 0,
       last_rate_calc = start, last_total = 0,
       src_state = map_of (map (\<lambda>s. (s, src_entry0)) sources),
       dst_state = map_of (map (\<lambda>d. (d, dst_entry0)) destinations),
       span_stack = [], finished_spans = [],
       handler_lock = 0, sink_writable = w, sink_lines = [], handler_errors = 0 \<rparr>"

subsection \<open>Observable totals and the packet rate\<close>

definition packets_in_cb :: "app_state \<Rightarrow> observation list" where
  "packets_in_cb st = [(IntV (packets_in_total st), [(''hostname'', ''host1'')])]"

definition packets_out_cb :: "app_state \<Rightarrow> observation list" where
  "packets_out_cb st = [(IntV (packets_out_total st), [(''hostname'', ''host1'')])]"

definition packet_rate_cb :: "real \<Rightarrow> app_state \<Rightarrow> py_error + (observation list \<times> app_state)" where
  "packet_rate_cb now st =
     (let elapsed = max 0.001 (now - last_rate_calc st);
          current = packets_in_total st + packets_out_total st
      in bind_err (py_truediv (of_int (current - last_total st)) elapsed) (\<lambda>rate.
           Inr ([(FloatV rate, [(''hostname'', ''host1'')])],
                st\<lparr>last_total := current, last_rate_calc := now\<rparr>)))"

text \<open>
  The state of the rate estimator in the scenario of the specification: the previous total
  is 100, taken at time 0, and the totals now add up to 150.
\<close>

definition rate_scenario :: app_state where
  "rate_scenario =
     (init_state 0 True)\<lparr>packets_in_total := 75, packets_out_total := 75, last_total := 100\<rparr>"

subsection \<open>Per-source and per-destination gauges\<close>

definition iadd_field :: "store \<Rightarrow> string \<Rightarrow> string \<Rightarrow> int \<Rightarrow> py_error + store" where
  \<comment> \<open>\<open>state[s][f] += v\<close>\<close>
  "iadd_field st s f v =
     bind_err (getitem st s) (\<lambda>e.
     bind_err (getitem e f) (\<lambda>old.
       Inr (st(s \<mapsto> e(f \<mapsto> old + v)))))"

definition set_field :: "store \<Rightarrow> string \<Rightarrow> string \<Rightarrow> int \<Rightarrow> py_error + store" where
  \<comment> \<open>\<open>state[s][f] = v\<close>\<close>
  "set_field st s f v = bind_err (getitem st s) (\<lambda>e. Inr (st(s \<mapsto> e(f \<mapsto> v))))"

definition get_field :: "store \<Rightarrow> string \<Rightarrow> string \<Rightarrow> py_error + int" where
  \<comment> \<open>\<open>state[s][f]\<close>\<close>
  "get_field st s f = bind_err (getitem st s) (\<lambda>e. getitem e f)"

definition src_labels :: "string \<Rightarrow> string \<Rightarrow> (string \<times> string) list" where
  "src_labels s m = [(''hostname'', ''host1''), (''src'', s), (''metric'', m)]"

definition dst_labels :: "string \<Rightarrow> string \<Rightarrow> (string \<times> string) list" where
  "dst_labels d m = [(''hostname'', ''host1''), (''dst'', d), (''metric'', m)]"

text \<open>
  The body of the loop of \<open>src_gauge_cb\<close> for the source \<open>s\<close>; \<open>rnd\<close> is the entropy of
  its two calls of \<open>random.randint\<close>.
\<close>

definition src_gauge_body :: "int \<Rightarrow> string \<Rightarrow> nat \<times> nat \<Rightarrow> store \<Rightarrow> py_error + (observation list \<times> store)" where
  "src_gauge_body now s rnd st =
     (let add_pk = randint 50 200 (fst rnd);
          add_by = add_pk * randint 64 1200 (snd rnd)
      in bind_err (iadd_field st s ''packets'' add_pk) (\<lambda>st1.
         bind_err (iadd_field st1 s ''bytes'' add_by) (\<lambda>st2.
         bind_err (set_field st2 s ''last'' now) (\<lambda>st3.
         bind_err (get_field st3 s ''packets'') (\<lambda>p.
         bind_err (get_field st3 s ''bytes'') (\<lambda>b.
         bind_err (get_field st3 s ''last'') (\<lambda>l.
           Inr ([(IntV p, src_labels s ''packets''),
                 (IntV b, src_labels s ''bytes''),
                 (IntV l, src_labels s ''last'')], st3))))))))"

text \<open>\<open>for s in sources\<close>: the \<open>i\<close>-th pass takes its entropy from \<open>rnd i\<close>.\<close>

fun src_gauge_loop :: "int \<Rightarrow> string list \<Rightarrow> nat \<Rightarrow> (nat \<Rightarrow> nat \<times> nat) \<Rightarrow> store \<Rightarrow> observation list
    \<Rightarrow> py_error + (observation list \<times> store)" where
  "src_gauge_loop now [] i rnd st out = Inr (out, st)"
| "src_gauge_loop now (s # ss) i rnd st out =
     bind_err (src_gauge_body now s (rnd i) st) (\<lambda>(obs, st').
       src_gauge_loop now ss (Suc i) rnd st' (out @ obs))"

definition src_gauge_cb :: "real \<Rightarrow> (nat \<Rightarrow> nat \<times> nat) \<Rightarrow> app_state \<Rightarrow> py_error + (observation list \<times> app_state)" where
  "src_gauge_cb t rnd st =
     (let now = py_int t
      in bind_err (src_gauge_loop now sources 0 rnd (src_state st) []) (\<lambda>(out, ss).
           Inr (out, st\<lparr>src_state := ss\<rparr>)))"

definition dst_gauge_body :: "string \<Rightarrow> nat \<times> nat \<Rightarrow> store \<Rightarrow> py_error + (observation list \<times> store)" where
  "dst_gauge_body d rnd st =
     (let add_pk = randint 40 160 (fst rnd);
          add_by = add_pk * randint 64 1200 (snd rnd)
      in bind_err (iadd_field st d ''packets'' add_pk) (\<lambda>st1.
         bind_err (iadd_field st1 d ''bytes'' add_by) (\<lambda>st2.
         bind_err (get_field st2 d ''packets'') (\<lambda>p.
         bind_err (get_field st2 d ''bytes'') (\<lambda>b.
           Inr ([(IntV p, dst_labels d ''packets''),
                 (IntV b, dst_labels d ''bytes'')], st2))))))"

fun dst_gauge_loop :: "string list \<Rightarrow> nat \<Rightarrow> (nat \<Rightarrow> nat \<times> nat) \<Rightarrow> store \<Rightarrow> observation list
    \<Rightarrow> py_error + (observation list \<times> store)" where
  "dst_gauge_loop [] i rnd st out = Inr (out, st)"
| "dst_gauge_loop (d # ds) i rnd st out =
     bind_err (dst_gauge_body d (rnd i) st) (\<lambda>(obs, st').
       dst_gauge_loop ds (Suc i) rnd st' (out @ obs))"

definition dst_gauge_cb :: "(nat \<Rightarrow> nat \<times> nat) \<Rightarrow> app_state \<Rightarrow> py_error + (observation list \<times> app_state)" where
  "dst_gauge_cb rnd st =
     bind_err (dst_gauge_loop destinations 0 rnd (dst_state st) []) (\<lambda>(out, ds).
       Inr (out, st\<lparr>dst_state := ds\<rparr>))"

text \<open>Reading a field for the statements below: \<open>None\<close> where the name or the field is missing.\<close>

definition field :: "store \<Rightarrow> string \<Rightarrow> string \<Rightarrow> int option" where
  "field st s f = (case st s of None \<Rightarrow> None | Some e \<Rightarrow> e f)"

text \<open>Every listed name is a key of the store, and its entry has the listed fields.\<close>

definition has_fields :: "string list \<Rightarrow> string list \<Rightarrow> store \<Rightarrow> bool" where
  "has_fields names fs st = list_all (\<lambda>s. list_all (\<lambda>f. field st s f \<noteq> None) fs) names"

definition wf_state :: "app_state \<Rightarrow> bool" where
  "wf_state st \<longleftrightarrow>
     has_fields sources [''packets'', ''bytes''] (src_state st) \<and>
     has_fields destinations [''packets'', ''bytes''] (dst_state st)"

subsection \<open>Tracing\<close>

text \<open>
  The tracing SDK is not part of the module; what the module relies on is modelled.
  \<open>tracer.start_as_current_span(name)\<close> opens a span and makes it the current one: the
  span takes the trace identity of the current span when that identity is valid (not
  zero), and the freshly generated identity \<open>fresh\<close> otherwise. Leaving the \<open>with\<close>
  block ends the span and makes its parent current again. With no span open,
  \<open>trace.get_current_span()\<close> is the invalid span, whose trace identity is zero.
\<close>

definition get_current_trace_id :: "app_state \<Rightarrow> nat" where
  "get_current_trace_id st = (case span_stack st of [] \<Rightarrow> 0 | sp # _ \<Rightarrow> sp_trace_id sp)"

definition start_as_current_span :: "string \<Rightarrow> nat \<Rightarrow> app_state \<Rightarrow> app_state" where
  "start_as_current_span name fresh st =
     (let parent = get_current_trace_id st;
          tid = (if parent \<noteq> 0 then parent else fresh)
      in st\<lparr>span_stack := \<lparr>sp_name = name, sp_trace_id = tid, sp_attrs = []\<rparr> # span_stack st\<rparr>)"

definition end_span :: "app_state \<Rightarrow> app_state" where
  "end_span st =
     (case span_stack st of
        [] \<Rightarrow> st
      | sp # rest \<Rightarrow> st\<lparr>span_stack := rest, finished_spans := finished_spans st @ [sp]\<rparr>)"

text \<open>
  \<open>root.set_attribute(k, v)\<close>: at both places where the module calls it, \<open>root\<close> is the
  innermost open span.
\<close>

definition set_attribute :: "string \<Rightarrow> attr \<Rightarrow> app_state \<Rightarrow> app_state" where
  "set_attribute k v st =
     (case span_stack st of
        [] \<Rightarrow> st
      | sp # rest \<Rightarrow> st\<lparr>span_stack := sp\<lparr>sp_attrs := sp_attrs sp @ [(k, v)]\<rparr> # rest\<rparr>)"

text \<open>The format \<open>032x\<close>: lower-case hexadecimal, padded with zeros to 32 characters.\<close>

definition hexdigit :: "nat \<Rightarrow> char" where
  "hexdigit d = ''0123456789abcdef'' ! d"

fun hex_digits :: "nat \<Rightarrow> string" where
  "hex_digits n = (if n < 16 then [hexdigit n] else hex_digits (n div 16) @ [hexdigit (n mod 16)])"

declare hex_digits.simps [simp del]

definition format_032x :: "nat \<Rightarrow> string" where
  "format_032x n = replicate (32 - length (hex_digits n)) (CHR ''0'') @ hex_digits n"

text \<open>
  Lines 166 and 167: the span context \<open>ctx\<close> is a non-empty tuple, hence true, so the
  conditional tests the trace identity alone.
\<close>

definition current_trace_id :: "app_state \<Rightarrow> string option" where
  "current_trace_id st =
     (let tid = get_current_trace_id st
      in if tid \<noteq> 0 then Some (format_032x tid) else None)"

subsection \<open>Logging\<close>

text \<open>
  \<open>logger.info(line)\<close> goes through Python's \<open>logging\<close> library to the module's
  \<open>RotatingFileHandler\<close>. The handler's \<open>emit\<close> wraps the roll-over and the write in
  \<open>try ... except Exception: self.handleError(record)\<close>, and \<open>handleError\<close> prints a
  traceback on the standard error stream and returns: a failed write does not raise in
  the caller of \<open>logger.info\<close>. The line is \<open>json.dumps\<close> of the record, whose values are
  strings, integers and \<open>None\<close>; the model keeps the record in place of its line.
\<close>

definition handler_emit :: "log_record \<Rightarrow> app_state \<Rightarrow> app_state" where
  "handler_emit r st =
     (if sink_writable st then st\<lparr>sink_lines := sink_lines st @ [r]\<rparr>
      else st\<lparr>handler_errors := handler_errors st + 1\<rparr>)"

definition logger_info :: "log_record \<Rightarrow> app_state \<Rightarrow> py_error + app_state" where
  "logger_info r st = Inr (handler_emit r st)"

text \<open>
  \<open>log_json\<close>: acquire the handler's lock, log, and release the lock in \<open>finally\<close>; an
  exception of \<open>logger.info\<close> would pass through.
\<close>

definition log_json :: "log_record \<Rightarrow> app_state \<Rightarrow> py_error + app_state" where
  "log_json r st =
     (let st1 = st\<lparr>handler_lock := handler_lock st + 1\<rparr>
      in case logger_info r st1 of
           Inl e \<Rightarrow> Inl e
         | Inr st2 \<Rightarrow> Inr (st2\<lparr>handler_lock := handler_lock st2 - 1\<rparr>))"

subsection \<open>The main loop\<close>

text \<open>
  What one simulated item takes from the environment: the entropy of its four random
  draws, the two readings of the clock around the three stages, the text of
  \<open>datetime.utcnow().isoformat()\<close>, and the identities the tracer would generate for the
  three stage spans if they had no valid parent.
\<close>

record item_draw =
  r_src :: nat
  r_dst :: nat
  r_size :: nat
  r_status :: nat
  t0 :: real
  t1 :: real
  utc_iso :: string
  id_ingest :: nat
  id_transform :: nat
  id_store :: nat

definition item_src :: "item_draw \<Rightarrow> string" where
  "item_src d = choice sources (r_src d)"

definition item_dst :: "item_draw \<Rightarrow> string" where
  "item_dst d = choice destinations (r_dst d)"

definition item_size :: "item_draw \<Rightarrow> int" where
  "item_size d = randint 200 4000 (r_size d)"

definition item_status :: "item_draw \<Rightarrow> string" where
  "item_status d = choice [''ok'', ''ok'', ''ok'', ''error''] (r_status d)"

text \<open>
  The three stages of an item: each opens a span, sleeps, and ends the span. Sleeping
  changes no state of the module.
\<close>

definition run_stages :: "item_draw \<Rightarrow> app_state \<Rightarrow> app_state" where
  "run_stages d st =
     (let st1 = end_span (start_as_current_span ''ingest'' (id_ingest d) st);
          st2 = end_span (start_as_current_span ''transform'' (id_transform d) st1)
      in end_span (start_as_current_span ''store'' (id_store d) st2))"

definition item_latency_ms :: "item_draw \<Rightarrow> int" where
  "item_latency_ms d = py_int ((t1 d - t0 d) * 1000)"

text \<open>Line 162 and line 163, one statement each.\<close>

definition add_packets_in :: "int \<Rightarrow> app_state \<Rightarrow> app_state" where
  "add_packets_in sz st = st\<lparr>packets_in_total := packets_in_total st + sz div 512\<rparr>"

definition add_packets_out :: "int \<Rightarrow> app_state \<Rightarrow> app_state" where
  "add_packets_out sz st = st\<lparr>packets_out_total := packets_out_total st + sz div 512\<rparr>"

text \<open>The dictionary passed to \<open>log_json\<close>, in the order of its keys.\<close>

definition log_entry :: "item_draw \<Rightarrow> string option \<Rightarrow> log_record" where
  "log_entry d trace_id =
     [(''ts'', JStr (utc_iso d @ ''Z'')),
      (''level'', JStr (if item_status d = ''ok'' then ''INFO'' else ''ERROR'')),
      (''hostname'', JStr ''host1''),
      (''src'', JStr (item_src d)),
      (''dst'', JStr (item_dst d)),
      (''bytes'', JInt (item_size d)),
      (''latency_ms'', JInt (item_latency_ms d)),
      (''status'', JStr (item_status d)),
      (''trace_id'', (case trace_id of None \<Rightarrow> JNull | Some h \<Rightarrow> JStr h)),
      (''msg'', JStr ''processed message'')]"

text \<open>
  The body of \<open>for _ in range(req_count)\<close>, on the state and the local variable
  \<open>batch_latency_ms\<close>.
\<close>

definition process_item :: "item_draw \<Rightarrow> app_state \<times> int \<Rightarrow> py_error + (app_state \<times> int)" where
  "process_item d acc =
     (let st1 = run_stages d (fst acc);
          batch_latency_ms = snd acc + item_latency_ms d;
          st2 = add_packets_in (item_size d) st1;
          st3 = add_packets_out (item_size d) st2;
          trace_id = current_trace_id st3
      in bind_err (log_json (log_entry d trace_id) st3) (\<lambda>st4.
           Inr (st4, batch_latency_ms)))"

fun item_loop :: "nat \<Rightarrow> nat \<Rightarrow> (nat \<Rightarrow> item_draw) \<Rightarrow> app_state \<times> int \<Rightarrow> py_error + (app_state \<times> int)" where
  "item_loop 0 i draws acc = Inr acc"
| "item_loop (Suc n) i draws acc =
     bind_err (process_item (draws i) acc) (item_loop n (Suc i) draws)"

text \<open>
  One pass of \<open>while True\<close>, up to the final sleep: \<open>r_req\<close> is the entropy of
  \<open>req_count\<close>, \<open>root_id\<close> the identity the tracer generates for a new trace, and
  \<open>draws i\<close> what the \<open>i\<close>-th item takes from the environment.
\<close>

definition req_count :: "nat \<Rightarrow> int" where
  "req_count r_req = randint 3 8 r_req"

definition main_iteration :: "nat \<Rightarrow> nat \<Rightarrow> (nat \<Rightarrow> item_draw) \<Rightarrow> app_state \<Rightarrow> py_error + app_state" where
  "main_iteration r_req root_id draws st =
     (let st1 = start_as_current_span ''process_batch'' root_id st;
          st2 = set_attribute ''hostname'' (AStr ''host1'') st1
      in bind_err (item_loop (nat (req_count r_req)) 0 draws (st2, 0)) (\<lambda>(st3, batch_latency_ms).
           Inr (end_span
                 (set_attribute ''batch.latency_ms'' (AInt batch_latency_ms)
                   (set_attribute ''batch.size'' (AInt (req_count r_req)) st3)))))"

subsection \<open>Executions\<close>

text \<open>
  The operations of the running module: a pass of the main loop, and the five pull
  callbacks, which the metrics reader calls on its own timer. An execution is a sequence
  of operations; it stops at the first exception.
\<close>

datatype op =
    MainIteration nat nat "nat \<Rightarrow> item_draw"
  | PacketsInCb
  | PacketsOutCb
  | PacketRateCb real
  | SrcGaugeCb real "nat \<Rightarrow> nat \<times> nat"
  | DstGaugeCb "nat \<Rightarrow> nat \<times> nat"

fun exec_op :: "op \<Rightarrow> app_state \<Rightarrow> py_error + app_state" where
  "exec_op (MainIteration r_req root_id draws) st = main_iteration r_req root_id draws st"
| "exec_op PacketsInCb st = Inr st"
| "exec_op PacketsOutCb st = Inr st"
| "exec_op (PacketRateCb now) st = bind_err (packet_rate_cb now st) (\<lambda>(out, st'). Inr st')"
| "exec_op (SrcGaugeCb t rnd) st = bind_err (src_gauge_cb t rnd st) (\<lambda>(out, st'). Inr st')"
| "exec_op (DstGaugeCb rnd) st = bind_err (dst_gauge_cb rnd st) (\<lambda>(out, st'). Inr st')"

fun run :: "op list \<Rightarrow> app_state \<Rightarrow> py_error + app_state" where
  "run [] st = Inr st"
| "run (x # xs) st = bind_err (exec_op x st) (run xs)"

text \<open>Reading a key of a log record.\<close>

definition rec_get :: "log_record \<Rightarrow> string \<Rightarrow> jvalue option" where
  "rec_get r k = map_of r k"

text \<open>
  The level of a record agrees with its status: \<open>INFO\<close> exactly for \<open>ok\<close>, \<open>ERROR\<close>
  exactly for \<open>error\<close>, and the status is one of the two.
\<close>

definition level_matches_status :: "log_record \<Rightarrow> bool" where
  "level_matches_status r \<longleftrightarrow>
     (rec_get r ''level'' = Some (JStr ''INFO'') \<longleftrightarrow> rec_get r ''status'' = Some (JStr ''ok'')) \<and>
     (rec_get r ''level'' = Some (JStr ''ERROR'') \<longleftrightarrow> rec_get r ''status'' = Some (JStr ''error'')) \<and>
     (rec_get r ''status'' = Some (JStr ''ok'') \<or> rec_get r ''status'' = Some (JStr ''error''))"

text \<open>
  A concrete item for the examples: the source \<open>source1\<close>, the destination \<open>dest1\<close>,
  512 bytes, the status \<open>error\<close>, no measurable latency.
\<close>

definition demo_item :: item_draw where
  "demo_item =
     \<lparr> r_src = 0, r_dst = 0, r_size = 312, r_status = 3, t0 = 0, t1 = 0,
       utc_iso = ''2024-01-01T00:00:00'', id_ingest = 7, id_transform = 8, id_store = 9 \<rparr>"


text \<open>
  The state of the first pass of the main loop whose first item is \<open>demo_item\<close>, after
  line 162 of that item and before line 163: the root span is open, the three stages
  have run, \<open>packets_in_total\<close> has been updated and \<open>packets_out_total\<close> not yet.
\<close>

definition mid_item_state :: app_state where
  "mid_item_state =
     add_packets_in (item_size demo_item)
       (run_stages demo_item
         (set_attribute ''hostname'' (AStr ''host1'')
           (start_as_current_span ''process_batch'' 1 (init_state 0 True))))"

text \<open>
  Every item of a pass is \<open>demo_item\<close>; and the lines of the log file after an
  operation, \<open>None\<close> when the operation raised.
\<close>

definition demo_draws :: "nat \<Rightarrow> item_draw" where
  "demo_draws i = demo_item"

definition lines_after :: "py_error + app_state \<Rightarrow> log_record list option" where
  "lines_after res = (case res of Inl e \<Rightarrow> None | Inr st \<Rightarrow> Some (sink_lines st))"

section \<open>Properties\<close>

subsection \<open>Library functions and dictionaries\<close>

lemma randint_bounds: "a \<le> b \<Longrightarrow> a \<le> randint a b r \<and> randint a b r \<le> b"
proof -
  assume ab: "a \<le> b"
  then have pos: "0 < nat (b - a + 1)" by simp
  have "r mod nat (b - a + 1) < nat (b - a + 1)"
    using pos by (rule mod_less_divisor)
  then have "int (r mod nat (b - a + 1)) < b - a + 1"
    using ab by linarith
  then show ?thesis
    by (simp add: randint_def randbelow_def)
qed

lemma iadd_field_Inr:
  "st s = Some e \<Longrightarrow> e f = Some old \<Longrightarrow> iadd_field st s f v = Inr (st(s \<mapsto> e(f \<mapsto> old + v)))"
  by (simp add: iadd_field_def getitem_def bind_err_def)

lemma set_field_Inr:
  "st s = Some e \<Longrightarrow> set_field st s f v = Inr (st(s \<mapsto> e(f \<mapsto> v)))"
  by (simp add: set_field_def getitem_def bind_err_def)

lemma get_field_Inr:
  "st s = Some e \<Longrightarrow> e f = Some v \<Longrightarrow> get_field st s f = Inr v"
  by (simp add: get_field_def getitem_def bind_err_def)

lemma src_gauge_body_Inr:
  assumes "st s = Some e" "e ''packets'' = Some p" "e ''bytes'' = Some b"
  shows "src_gauge_body now s rnd st =
           Inr ([(IntV (p + randint 50 200 (fst rnd)), src_labels s ''packets''),
                 (IntV (b + randint 50 200 (fst rnd) * randint 64 1200 (snd rnd)), src_labels s ''bytes''),
                 (IntV now, src_labels s ''last'')],
                st(s \<mapsto> e(''packets'' \<mapsto> p + randint 50 200 (fst rnd),
                           ''bytes'' \<mapsto> b + randint 50 200 (fst rnd) * randint 64 1200 (snd rnd),
                           ''last'' \<mapsto> now)))"
  using assms
  by (simp add: src_gauge_body_def Let_def iadd_field_Inr set_field_Inr get_field_Inr bind_err_def)

lemma dst_gauge_body_Inr:
  assumes "st d = Some e" "e ''packets'' = Some p" "e ''bytes'' = Some b"
  shows "dst_gauge_body d rnd st =
           Inr ([(IntV (p + randint 40 160 (fst rnd)), dst_labels d ''packets''),
                 (IntV (b + randint 40 160 (fst rnd) * randint 64 1200 (snd rnd)), dst_labels d ''bytes'')],
                st(d \<mapsto> e(''packets'' \<mapsto> p + randint 40 160 (fst rnd),
                           ''bytes'' \<mapsto> b + randint 40 160 (fst rnd) * randint 64 1200 (snd rnd))))"
  using assms
  by (simp add: dst_gauge_body_def Let_def iadd_field_Inr get_field_Inr bind_err_def)

subsection \<open>The loops of the gauge callbacks\<close>

lemma src_gauge_loop_Inr:
  "distinct ss \<Longrightarrow> \<forall>s\<in>set ss. \<exists>e p b. st s = Some e \<and> e ''packets'' = Some p \<and> e ''bytes'' = Some b \<Longrightarrow>
   \<exists>out' st'. src_gauge_loop now ss i rnd st out = Inr (out @ out', st') \<and>
     length out' = 3 * length ss \<and>
     (\<forall>s. s \<notin> set ss \<longrightarrow> st' s = st s) \<and>
     (\<forall>k<length ss. \<exists>e p b. st (ss ! k) = Some e \<and> e ''packets'' = Some p \<and> e ''bytes'' = Some b \<and>
        st' (ss ! k) = Some (e(''packets'' \<mapsto> p + randint 50 200 (fst (rnd (i + k))),
                              ''bytes'' \<mapsto> b + randint 50 200 (fst (rnd (i + k))) * randint 64 1200 (snd (rnd (i + k))),
                              ''last'' \<mapsto> now)) \<and>
        out' ! (3 * k) = (IntV (p + randint 50 200 (fst (rnd (i + k)))), src_labels (ss ! k) ''packets'') \<and>
        out' ! (3 * k + 1) = (IntV (b + randint 50 200 (fst (rnd (i + k))) * randint 64 1200 (snd (rnd (i + k)))), src_labels (ss ! k) ''bytes'') \<and>
        out' ! (3 * k + 2) = (IntV now, src_labels (ss ! k) ''last''))"
proof (induction ss arbitrary: i st out)
  case Nil
  then show ?case by simp
next
  case (Cons s ss)
  from Cons.prems obtain e p b where
    e: "st s = Some e" "e ''packets'' = Some p" "e ''bytes'' = Some b"
    by auto
  let ?pk = "randint 50 200 (fst (rnd i))"
  let ?by = "randint 50 200 (fst (rnd i)) * randint 64 1200 (snd (rnd i))"
  let ?e' = "e(''packets'' \<mapsto> p + ?pk, ''bytes'' \<mapsto> b + ?by, ''last'' \<mapsto> now)"
  let ?st1 = "st(s \<mapsto> ?e')"
  let ?obs = "[(IntV (p + ?pk), src_labels s ''packets''),
               (IntV (b + ?by), src_labels s ''bytes''),
               (IntV now, src_labels s ''last'')]"
  have body: "src_gauge_body now s (rnd i) st = Inr (?obs, ?st1)"
    using e by (rule src_gauge_body_Inr)
  have notin: "s \<notin> set ss" and dist: "distinct ss"
    using Cons.prems(1) by simp_all
  have ok1: "\<forall>x\<in>set ss. \<exists>e p b. ?st1 x = Some e \<and> e ''packets'' = Some p \<and> e ''bytes'' = Some b"
  proof
    fix x assume x: "x \<in> set ss"
    then have "x \<noteq> s" using notin by auto
    then have "?st1 x = st x" by simp
    moreover have "\<exists>e p b. st x = Some e \<and> e ''packets'' = Some p \<and> e ''bytes'' = Some b"
      using Cons.prems(2) x by simp
    ultimately show "\<exists>e p b. ?st1 x = Some e \<and> e ''packets'' = Some p \<and> e ''bytes'' = Some b"
      by simp
  qed
  from Cons.IH [OF dist ok1, of "Suc i" "out @ ?obs"] obtain out2 st' where
    run: "src_gauge_loop now ss (Suc i) rnd ?st1 (out @ ?obs) = Inr ((out @ ?obs) @ out2, st')"
    and len: "length out2 = 3 * length ss"
    and frame: "\<forall>x. x \<notin> set ss \<longrightarrow> st' x = ?st1 x"
    and each: "\<forall>k<length ss. \<exists>e p b. ?st1 (ss ! k) = Some e \<and> e ''packets'' = Some p \<and> e ''bytes'' = Some b \<and>
        st' (ss ! k) = Some (e(''packets'' \<mapsto> p + randint 50 200 (fst (rnd (Suc i + k))),
                              ''bytes'' \<mapsto> b + randint 50 200 (fst (rnd (Suc i + k))) * randint 64 1200 (snd (rnd (Suc i + k))),
                              ''last'' \<mapsto> now)) \<and>
        out2 ! (3 * k) = (IntV (p + randint 50 200 (fst (rnd (Suc i + k)))), src_labels (ss ! k) ''packets'') \<and>
        out2 ! (3 * k + 1) = (IntV (b + randint 50 200 (fst (rnd (Suc i + k))) * randint 64 1200 (snd (rnd (Suc i + k)))), src_labels (ss ! k) ''bytes'') \<and>
        out2 ! (3 * k + 2) = (IntV now, src_labels (ss ! k) ''last'')"
    by blast
  have res: "src_gauge_loop now (s # ss) i rnd st out = Inr (out @ (?obs @ out2), st')"
    using body run by (simp add: bind_err_def)
  have len': "length (?obs @ out2) = 3 * length (s # ss)"
    using len by simp
  have frame': "\<forall>x. x \<notin> set (s # ss) \<longrightarrow> st' x = st x"
    using frame by auto
  have each': "\<exists>e p b. st ((s # ss) ! k) = Some e \<and> e ''packets'' = Some p \<and> e ''bytes'' = Some b \<and>
        st' ((s # ss) ! k) = Some (e(''packets'' \<mapsto> p + randint 50 200 (fst (rnd (i + k))),
                              ''bytes'' \<mapsto> b + randint 50 200 (fst (rnd (i + k))) * randint 64 1200 (snd (rnd (i + k))),
                              ''last'' \<mapsto> now)) \<and>
        (?obs @ out2) ! (3 * k) = (IntV (p + randint 50 200 (fst (rnd (i + k)))), src_labels ((s # ss) ! k) ''packets'') \<and>
        (?obs @ out2) ! (3 * k + 1) = (IntV (b + randint 50 200 (fst (rnd (i + k))) * randint 64 1200 (snd (rnd (i + k)))), src_labels ((s # ss) ! k) ''bytes'') \<and>
        (?obs @ out2) ! (3 * k + 2) = (IntV now, src_labels ((s # ss) ! k) ''last'')"
    if k: "k < length (s # ss)" for k
  proof (cases k)
    case 0
    have "st' s = ?st1 s" using frame notin by blast
    then have "st' s = Some ?e'" by simp
    then show ?thesis using 0 e by simp
  next
    case (Suc j)
    then have j: "j < length ss" using k by simp
    then have neq: "ss ! j \<noteq> s" using notin by (metis nth_mem)
    from each j obtain e2 p2 b2 where
      a: "?st1 (ss ! j) = Some e2" "e2 ''packets'' = Some p2" "e2 ''bytes'' = Some b2"
      and b: "st' (ss ! j) = Some (e2(''packets'' \<mapsto> p2 + randint 50 200 (fst (rnd (Suc i + j))),
                              ''bytes'' \<mapsto> b2 + randint 50 200 (fst (rnd (Suc i + j))) * randint 64 1200 (snd (rnd (Suc i + j))),
                              ''last'' \<mapsto> now))"
      and c: "out2 ! (3 * j) = (IntV (p2 + randint 50 200 (fst (rnd (Suc i + j)))), src_labels (ss ! j) ''packets'')"
        "out2 ! (3 * j + 1) = (IntV (b2 + randint 50 200 (fst (rnd (Suc i + j))) * randint 64 1200 (snd (rnd (Suc i + j)))), src_labels (ss ! j) ''bytes'')"
        "out2 ! (3 * j + 2) = (IntV now, src_labels (ss ! j) ''last'')"
      by blast
    have a': "st (ss ! j) = Some e2" using a(1) neq by simp
    have i1: "(?obs @ out2) ! (3 * k) = out2 ! (3 * j)"
      using Suc by (simp add: nth_append)
    have i2: "(?obs @ out2) ! (3 * k + 1) = out2 ! (3 * j + 1)"
      using Suc by (simp add: nth_append)
    have i3: "(?obs @ out2) ! (3 * k + 2) = out2 ! (3 * j + 2)"
      using Suc by (simp add: nth_append)
    show ?thesis
      using Suc a' a(2,3) b c i1 i2 i3 by simp
  qed
  show ?case
    using res len' frame' each' by blast
qed

subsection \<open>One item, one pass of the main loop\<close>

lemma run_stages_frame:
  "packets_in_total (run_stages d st) = packets_in_total st"
  "packets_out_total (run_stages d st) = packets_out_total st"
  "last_rate_calc (run_stages d st) = last_rate_calc st"
  "last_total (run_stages d st) = last_total st"
  "src_state (run_stages d st) = src_state st"
  "dst_state (run_stages d st) = dst_state st"
  "span_stack (run_stages d st) = span_stack st"
  "handler_lock (run_stages d st) = handler_lock st"
  "sink_writable (run_stages d st) = sink_writable st"
  "sink_lines (run_stages d st) = sink_lines st"
  "handler_errors (run_stages d st) = handler_errors st"
  by (simp_all add: run_stages_def start_as_current_span_def end_span_def Let_def)

lemma current_trace_id_cong:
  "span_stack st' = span_stack st \<Longrightarrow> current_trace_id st' = current_trace_id st"
  by (simp add: current_trace_id_def get_current_trace_id_def)

lemma log_json_Inr:
  "log_json r st = Inr (handler_emit r st)"
  by (simp add: log_json_def logger_info_def handler_emit_def Let_def)

lemma process_item_eq:
  "process_item d acc =
     Inr (handler_emit (log_entry d (current_trace_id (fst acc)))
            (add_packets_out (item_size d) (add_packets_in (item_size d) (run_stages d (fst acc)))),
          snd acc + item_latency_ms d)"
proof -
  have "current_trace_id (add_packets_out (item_size d) (add_packets_in (item_size d) (run_stages d (fst acc))))
        = current_trace_id (fst acc)"
    by (rule current_trace_id_cong) (simp add: add_packets_out_def add_packets_in_def run_stages_frame)
  then show ?thesis
    by (simp add: process_item_def Let_def log_json_Inr bind_err_def)
qed

lemma handler_emit_frame:
  "packets_in_total (handler_emit r st) = packets_in_total st"
  "packets_out_total (handler_emit r st) = packets_out_total st"
  "last_rate_calc (handler_emit r st) = last_rate_calc st"
  "last_total (handler_emit r st) = last_total st"
  "src_state (handler_emit r st) = src_state st"
  "dst_state (handler_emit r st) = dst_state st"
  "span_stack (handler_emit r st) = span_stack st"
  "handler_lock (handler_emit r st) = handler_lock st"
  "sink_writable (handler_emit r st) = sink_writable st"
  "sink_lines (handler_emit r st) = sink_lines st @ (if sink_writable st then [r] else [])"
  by (simp_all add: handler_emit_def)

lemma sum_shift: "(\<Sum>k<Suc n. f (i + k)) = (f i :: int) + (\<Sum>k<n. f (Suc i + k))"
  by (simp add: sum.lessThan_Suc_shift del: sum.lessThan_Suc)

lemma item_loop_effect:
  "\<exists>st'. item_loop n i draws (st, bl) = Inr (st', bl + (\<Sum>k<n. item_latency_ms (draws (i + k)))) \<and>
     packets_in_total st' = packets_in_total st + (\<Sum>k<n. item_size (draws (i + k)) div 512) \<and>
     packets_out_total st' = packets_out_total st + (\<Sum>k<n. item_size (draws (i + k)) div 512) \<and>
     last_rate_calc st' = last_rate_calc st \<and> last_total st' = last_total st \<and>
     src_state st' = src_state st \<and> dst_state st' = dst_state st \<and>
     span_stack st' = span_stack st \<and> handler_lock st' = handler_lock st \<and>
     sink_writable st' = sink_writable st \<and>
     sink_lines st' = sink_lines st @
       (if sink_writable st then map (\<lambda>k. log_entry (draws (i + k)) (current_trace_id st)) [0..<n] else [])"
proof (induction n arbitrary: i st bl)
  case 0
  then show ?case by simp
next
  case (Suc n)
  let ?st1 = "handler_emit (log_entry (draws i) (current_trace_id st))
            (add_packets_out (item_size (draws i)) (add_packets_in (item_size (draws i)) (run_stages (draws i) st)))"
  have step: "process_item (draws i) (st, bl) = Inr (?st1, bl + item_latency_ms (draws i))"
    by (simp add: process_item_eq)
  have p1: "packets_in_total ?st1 = packets_in_total st + item_size (draws i) div 512"
    "packets_out_total ?st1 = packets_out_total st + item_size (draws i) div 512"
    "last_rate_calc ?st1 = last_rate_calc st" "last_total ?st1 = last_total st"
    "src_state ?st1 = src_state st" "dst_state ?st1 = dst_state st"
    "span_stack ?st1 = span_stack st" "handler_lock ?st1 = handler_lock st"
    "sink_writable ?st1 = sink_writable st"
    "sink_lines ?st1 = sink_lines st @ (if sink_writable st then [log_entry (draws i) (current_trace_id st)] else [])"
    by (simp_all add: handler_emit_frame add_packets_out_def add_packets_in_def run_stages_frame)
  have tid: "current_trace_id ?st1 = current_trace_id st"
    by (rule current_trace_id_cong) (rule p1)
  from Suc.IH [of "Suc i" ?st1 "bl + item_latency_ms (draws i)"] obtain st' where
    r: "item_loop n (Suc i) draws (?st1, bl + item_latency_ms (draws i)) =
          Inr (st', bl + item_latency_ms (draws i) + (\<Sum>k<n. item_latency_ms (draws (Suc i + k))))"
    and q: "packets_in_total st' = packets_in_total ?st1 + (\<Sum>k<n. item_size (draws (Suc i + k)) div 512)"
      "packets_out_total st' = packets_out_total ?st1 + (\<Sum>k<n. item_size (draws (Suc i + k)) div 512)"
      "last_rate_calc st' = last_rate_calc ?st1" "last_total st' = last_total ?st1"
      "src_state st' = src_state ?st1" "dst_state st' = dst_state ?st1"
      "span_stack st' = span_stack ?st1" "handler_lock st' = handler_lock ?st1"
      "sink_writable st' = sink_writable ?st1"
      "sink_lines st' = sink_lines ?st1 @
         (if sink_writable ?st1 then map (\<lambda>k. log_entry (draws (Suc i + k)) (current_trace_id ?st1)) [0..<n] else [])"
    by blast
  have sh1: "(\<Sum>k<Suc n. item_latency_ms (draws (i + k))) =
      item_latency_ms (draws i) + (\<Sum>k<n. item_latency_ms (draws (Suc i + k)))"
    by (rule sum_shift [of "\<lambda>x. item_latency_ms (draws x)"])
  have sh2: "(\<Sum>k<Suc n. item_size (draws (i + k)) div 512) =
      item_size (draws i) div 512 + (\<Sum>k<n. item_size (draws (Suc i + k)) div 512)"
    by (rule sum_shift [of "\<lambda>x. item_size (draws x) div 512"])
  have res: "item_loop (Suc n) i draws (st, bl) =
      Inr (st', bl + (\<Sum>k<Suc n. item_latency_ms (draws (i + k))))"
    using step r by (simp add: bind_err_def sh1 del: sum.lessThan_Suc)
  have s1: "packets_in_total st' = packets_in_total st + (\<Sum>k<Suc n. item_size (draws (i + k)) div 512)"
    using q(1) p1(1) by (simp add: sh2 del: sum.lessThan_Suc)
  have s2: "packets_out_total st' = packets_out_total st + (\<Sum>k<Suc n. item_size (draws (i + k)) div 512)"
    using q(2) p1(2) by (simp add: sh2 del: sum.lessThan_Suc)
  have s3: "sink_lines st' = sink_lines st @
       (if sink_writable st then map (\<lambda>k. log_entry (draws (i + k)) (current_trace_id st)) [0..<Suc n] else [])"
    using q(10) p1(9,10) tid by (simp add: map_upt_Suc del: upt_Suc)
  show ?case
    using res s1 s2 s3 q(3-9) p1(3-9) by simp
qed

lemma set_attribute_frame:
  "packets_in_total (set_attribute k v st) = packets_in_total st"
  "packets_out_total (set_attribute k v st) = packets_out_total st"
  "last_rate_calc (set_attribute k v st) = last_rate_calc st"
  "last_total (set_attribute k v st) = last_total st"
  "src_state (set_attribute k v st) = src_state st"
  "dst_state (set_attribute k v st) = dst_state st"
  "handler_lock (set_attribute k v st) = handler_lock st"
  "sink_writable (set_attribute k v st) = sink_writable st"
  "sink_lines (set_attribute k v st) = sink_lines st"
  "get_current_trace_id (set_attribute k v st) = get_current_trace_id st"
  "tl (span_stack (set_attribute k v st)) = tl (span_stack st)"
  by (simp_all add: set_attribute_def get_current_trace_id_def split: list.splits)

lemma end_span_frame:
  "packets_in_total (end_span st) = packets_in_total st"
  "packets_out_total (end_span st) = packets_out_total st"
  "last_rate_calc (end_span st) = last_rate_calc st"
  "last_total (end_span st) = last_total st"
  "src_state (end_span st) = src_state st"
  "dst_state (end_span st) = dst_state st"
  "handler_lock (end_span st) = handler_lock st"
  "sink_writable (end_span st) = sink_writable st"
  "sink_lines (end_span st) = sink_lines st"
  "span_stack (end_span st) = tl (span_stack st)"
  by (simp_all add: end_span_def split: list.splits)

lemma start_span_frame:
  "packets_in_total (start_as_current_span n f st) = packets_in_total st"
  "packets_out_total (start_as_current_span n f st) = packets_out_total st"
  "last_rate_calc (start_as_current_span n f st) = last_rate_calc st"
  "last_total (start_as_current_span n f st) = last_total st"
  "src_state (start_as_current_span n f st) = src_state st"
  "dst_state (start_as_current_span n f st) = dst_state st"
  "handler_lock (start_as_current_span n f st) = handler_lock st"
  "sink_writable (start_as_current_span n f st) = sink_writable st"
  "sink_lines (start_as_current_span n f st) = sink_lines st"
  "tl (span_stack (start_as_current_span n f st)) = span_stack st"
  by (simp_all add: start_as_current_span_def Let_def)

lemma current_trace_id_set_attribute:
  "current_trace_id (set_attribute k v st) = current_trace_id st"
  by (simp add: current_trace_id_def set_attribute_frame)

lemma main_iteration_effect:
  "\<exists>st'. main_iteration r_req root_id draws st = Inr st' \<and>
     packets_in_total st' = packets_in_total st + (\<Sum>k<nat (req_count r_req). item_size (draws k) div 512) \<and>
     packets_out_total st' = packets_out_total st + (\<Sum>k<nat (req_count r_req). item_size (draws k) div 512) \<and>
     last_rate_calc st' = last_rate_calc st \<and> last_total st' = last_total st \<and>
     src_state st' = src_state st \<and> dst_state st' = dst_state st \<and>
     span_stack st' = span_stack st \<and> handler_lock st' = handler_lock st \<and>
     sink_writable st' = sink_writable st \<and>
     sink_lines st' = sink_lines st @
       (if sink_writable st
        then map (\<lambda>k. log_entry (draws k) (current_trace_id (start_as_current_span ''process_batch'' root_id st)))
               [0..<nat (req_count r_req)]
        else [])"
proof -
  let ?st2 = "set_attribute ''hostname'' (AStr ''host1'') (start_as_current_span ''process_batch'' root_id st)"
  let ?n = "nat (req_count r_req)"
  from item_loop_effect [of ?n 0 draws ?st2 0] obtain st3 where
    r: "item_loop ?n 0 draws (?st2, 0) = Inr (st3, 0 + (\<Sum>k<?n. item_latency_ms (draws (0 + k))))"
    and q: "packets_in_total st3 = packets_in_total ?st2 + (\<Sum>k<?n. item_size (draws (0 + k)) div 512)"
      "packets_out_total st3 = packets_out_total ?st2 + (\<Sum>k<?n. item_size (draws (0 + k)) div 512)"
      "last_rate_calc st3 = last_rate_calc ?st2" "last_total st3 = last_total ?st2"
      "src_state st3 = src_state ?st2" "dst_state st3 = dst_state ?st2"
      "span_stack st3 = span_stack ?st2" "handler_lock st3 = handler_lock ?st2"
      "sink_writable st3 = sink_writable ?st2"
      "sink_lines st3 = sink_lines ?st2 @
         (if sink_writable ?st2 then map (\<lambda>k. log_entry (draws (0 + k)) (current_trace_id ?st2)) [0..<?n] else [])"
    by blast
  let ?st' = "end_span (set_attribute ''batch.latency_ms'' (AInt (0 + (\<Sum>k<?n. item_latency_ms (draws (0 + k)))))
                 (set_attribute ''batch.size'' (AInt (req_count r_req)) st3))"
  have res: "main_iteration r_req root_id draws st = Inr ?st'"
    using r by (simp add: main_iteration_def Let_def bind_err_def)
  have stack: "span_stack ?st' = span_stack st"
    by (simp add: end_span_frame set_attribute_frame q(7) start_span_frame)
  show ?thesis
    using res stack q
    by (simp add: end_span_frame set_attribute_frame start_span_frame current_trace_id_set_attribute)
qed

subsection \<open>The rate estimator\<close>

lemma packet_rate_cb_eq:
  "packet_rate_cb now st =
     Inr ([(FloatV (of_int (packets_in_total st + packets_out_total st - last_total st)
                     / max 0.001 (now - last_rate_calc st)),
            [(''hostname'', ''host1'')])],
          st\<lparr>last_total := packets_in_total st + packets_out_total st, last_rate_calc := now\<rparr>)"
proof -
  have "max (0.001::real) (now - last_rate_calc st) \<noteq> 0"
    by (simp add: max_def)
  then show ?thesis
    by (simp add: packet_rate_cb_def py_truediv_def bind_err_def Let_def)
qed

text \<open>
  C1. In every state and at every reading \<open>now\<close> of the clock, \<open>packet_rate_cb\<close> raises
  nothing and returns one observation, whose number is the current total (inbound plus
  outbound) minus \<open>last_total\<close>, divided by the larger of 0.001 and
  \<open>now - last_rate_calc\<close>; it leaves \<open>last_total\<close> at the current total and
  \<open>last_rate_calc\<close> at \<open>now\<close>. With a previous total of 100 taken at time 0 and a current
  total of 150, the sample at time 5 is 10; a second sample of the same total, at whatever
  time \<open>now2\<close> it is taken, raises nothing and is 0. Floats are exact reals here, so every
  result is finite.
\<close>

theorem packet_rate_cb_sample:
  "packet_rate_cb now st =
     Inr ([(FloatV (of_int (packets_in_total st + packets_out_total st - last_total st)
                     / max 0.001 (now - last_rate_calc st)),
            [(''hostname'', ''host1'')])],
          st\<lparr>last_total := packets_in_total st + packets_out_total st, last_rate_calc := now\<rparr>)
   \<and> packet_rate_cb 5 rate_scenario =
     Inr ([(FloatV 10, [(''hostname'', ''host1'')])],
          rate_scenario\<lparr>last_total := 150, last_rate_calc := 5\<rparr>)
   \<and> packet_rate_cb now2 (rate_scenario\<lparr>last_total := 150, last_rate_calc := 5\<rparr>) =
     Inr ([(FloatV 0, [(''hostname'', ''host1'')])],
          rate_scenario\<lparr>last_total := 150, last_rate_calc := now2\<rparr>)"
proof (intro conjI)
  show "packet_rate_cb 5 rate_scenario =
     Inr ([(FloatV 10, [(''hostname'', ''host1'')])],
          rate_scenario\<lparr>last_total := 150, last_rate_calc := 5\<rparr>)"
    by (simp add: packet_rate_cb_eq rate_scenario_def init_state_def)
  show "packet_rate_cb now2 (rate_scenario\<lparr>last_total := 150, last_rate_calc := 5\<rparr>) =
     Inr ([(FloatV 0, [(''hostname'', ''host1'')])],
          rate_scenario\<lparr>last_total := 150, last_rate_calc := now2\<rparr>)"
    by (simp add: packet_rate_cb_eq rate_scenario_def init_state_def)
qed (rule packet_rate_cb_eq)

subsection \<open>The gauge callbacks\<close>

lemma dst_gauge_loop_Inr:
  "distinct ds \<Longrightarrow> \<forall>d\<in>set ds. \<exists>e p b. st d = Some e \<and> e ''packets'' = Some p \<and> e ''bytes'' = Some b \<Longrightarrow>
   \<exists>out' st'. dst_gauge_loop ds i rnd st out = Inr (out @ out', st') \<and>
     length out' = 2 * length ds \<and>
     (\<forall>d. d \<notin> set ds \<longrightarrow> st' d = st d) \<and>
     (\<forall>k<length ds. \<exists>e p b. st (ds ! k) = Some e \<and> e ''packets'' = Some p \<and> e ''bytes'' = Some b \<and>
        st' (ds ! k) = Some (e(''packets'' \<mapsto> p + randint 40 160 (fst (rnd (i + k))),
                              ''bytes'' \<mapsto> b + randint 40 160 (fst (rnd (i + k))) * randint 64 1200 (snd (rnd (i + k))))) \<and>
        out' ! (2 * k) = (IntV (p + randint 40 160 (fst (rnd (i + k)))), dst_labels (ds ! k) ''packets'') \<and>
        out' ! (2 * k + 1) = (IntV (b + randint 40 160 (fst (rnd (i + k))) * randint 64 1200 (snd (rnd (i + k)))), dst_labels (ds ! k) ''bytes''))"
proof (induction ds arbitrary: i st out)
  case Nil
  then show ?case by simp
next
  case (Cons d ds)
  from Cons.prems obtain e p b where
    e: "st d = Some e" "e ''packets'' = Some p" "e ''bytes'' = Some b"
    by auto
  let ?pk = "randint 40 160 (fst (rnd i))"
  let ?by = "randint 40 160 (fst (rnd i)) * randint 64 1200 (snd (rnd i))"
  let ?e' = "e(''packets'' \<mapsto> p + ?pk, ''bytes'' \<mapsto> b + ?by)"
  let ?st1 = "st(d \<mapsto> ?e')"
  let ?obs = "[(IntV (p + ?pk), dst_labels d ''packets''),
               (IntV (b + ?by), dst_labels d ''bytes'')]"
  have body: "dst_gauge_body d (rnd i) st = Inr (?obs, ?st1)"
    using e by (rule dst_gauge_body_Inr)
  have notin: "d \<notin> set ds" and dist: "distinct ds"
    using Cons.prems(1) by simp_all
  have ok1: "\<forall>x\<in>set ds. \<exists>e p b. ?st1 x = Some e \<and> e ''packets'' = Some p \<and> e ''bytes'' = Some b"
  proof
    fix x assume x: "x \<in> set ds"
    then have "x \<noteq> d" using notin by auto
    then have "?st1 x = st x" by simp
    moreover have "\<exists>e p b. st x = Some e \<and> e ''packets'' = Some p \<and> e ''bytes'' = Some b"
      using Cons.prems(2) x by simp
    ultimately show "\<exists>e p b. ?st1 x = Some e \<and> e ''packets'' = Some p \<and> e ''bytes'' = Some b"
      by simp
  qed
  from Cons.IH [OF dist ok1, of "Suc i" "out @ ?obs"] obtain out2 st' where
    run: "dst_gauge_loop ds (Suc i) rnd ?st1 (out @ ?obs) = Inr ((out @ ?obs) @ out2, st')"
    and len: "length out2 = 2 * length ds"
    and frame: "\<forall>x. x \<notin> set ds \<longrightarrow> st' x = ?st1 x"
    and each: "\<forall>k<length ds. \<exists>e p b. ?st1 (ds ! k) = Some e \<and> e ''packets'' = Some p \<and> e ''bytes'' = Some b \<and>
        st' (ds ! k) = Some (e(''packets'' \<mapsto> p + randint 40 160 (fst (rnd (Suc i + k))),
                              ''bytes'' \<mapsto> b + randint 40 160 (fst (rnd (Suc i + k))) * randint 64 1200 (snd (rnd (Suc i + k))))) \<and>
        out2 ! (2 * k) = (IntV (p + randint 40 160 (fst (rnd (Suc i + k)))), dst_labels (ds ! k) ''packets'') \<and>
        out2 ! (2 * k + 1) = (IntV (b + randint 40 160 (fst (rnd (Suc i + k))) * randint 64 1200 (snd (rnd (Suc i + k)))), dst_labels (ds ! k) ''bytes'')"
    by blast
  have res: "dst_gauge_loop (d # ds) i rnd st out = Inr (out @ (?obs @ out2), st')"
    using body run by (simp add: bind_err_def)
  have len': "length (?obs @ out2) = 2 * length (d # ds)"
    using len by simp
  have frame': "\<forall>x. x \<notin> set (d # ds) \<longrightarrow> st' x = st x"
    using frame by auto
  have each': "\<exists>e p b. st ((d # ds) ! k) = Some e \<and> e ''packets'' = Some p \<and> e ''bytes'' = Some b \<and>
        st' ((d # ds) ! k) = Some (e(''packets'' \<mapsto> p + randint 40 160 (fst (rnd (i + k))),
                              ''bytes'' \<mapsto> b + randint 40 160 (fst (rnd (i + k))) * randint 64 1200 (snd (rnd (i + k))))) \<and>
        (?obs @ out2) ! (2 * k) = (IntV (p + randint 40 160 (fst (rnd (i + k)))), dst_labels ((d # ds) ! k) ''packets'') \<and>
        (?obs @ out2) ! (2 * k + 1) = (IntV (b + randint 40 160 (fst (rnd (i + k))) * randint 64 1200 (snd (rnd (i + k)))), dst_labels ((d # ds) ! k) ''bytes'')"
    if k: "k < length (d # ds)" for k
  proof (cases k)
    case 0
    have "st' d = ?st1 d" using frame notin by blast
    then have "st' d = Some ?e'" by simp
    then show ?thesis using 0 e by simp
  next
    case (Suc j)
    then have j: "j < length ds" using k by simp
    then have neq: "ds ! j \<noteq> d" using notin by (metis nth_mem)
    from each j obtain e2 p2 b2 where
      a: "?st1 (ds ! j) = Some e2" "e2 ''packets'' = Some p2" "e2 ''bytes'' = Some b2"
      and b: "st' (ds ! j) = Some (e2(''packets'' \<mapsto> p2 + randint 40 160 (fst (rnd (Suc i + j))),
                              ''bytes'' \<mapsto> b2 + randint 40 160 (fst (rnd (Suc i + j))) * randint 64 1200 (snd (rnd (Suc i + j)))))"
      and c: "out2 ! (2 * j) = (IntV (p2 + randint 40 160 (fst (rnd (Suc i + j)))), dst_labels (ds ! j) ''packets'')"
        "out2 ! (2 * j + 1) = (IntV (b2 + randint 40 160 (fst (rnd (Suc i + j))) * randint 64 1200 (snd (rnd (Suc i + j)))), dst_labels (ds ! j) ''bytes'')"
      by blast
    have a': "st (ds ! j) = Some e2" using a(1) neq by simp
    have i1: "(?obs @ out2) ! (2 * k) = out2 ! (2 * j)"
      using Suc by (simp add: nth_append)
    have i2: "(?obs @ out2) ! (2 * k + 1) = out2 ! (2 * j + 1)"
      using Suc by (simp add: nth_append)
    show ?thesis
      using Suc a' a(2,3) b c i1 i2 by simp
  qed
  show ?case
    using res len' frame' each' by blast
qed

lemma has_fields_iff:
  "has_fields names [''packets'', ''bytes''] st \<longleftrightarrow>
     (\<forall>s\<in>set names. \<exists>e p b. st s = Some e \<and> e ''packets'' = Some p \<and> e ''bytes'' = Some b)"
  by (auto simp: has_fields_def list_all_iff field_def split: option.splits)

lemma distinct_sources: "distinct sources"
  by (simp add: sources_def)

lemma distinct_destinations: "distinct destinations"
  by (simp add: destinations_def)

lemma src_gauge_cb_effect:
  assumes "has_fields sources [''packets'', ''bytes''] (src_state st)"
  shows "\<exists>out ss. src_gauge_cb t rnd st = Inr (out, st\<lparr>src_state := ss\<rparr>) \<and>
     length out = 3 * length sources \<and>
     (\<forall>s. s \<notin> set sources \<longrightarrow> ss s = src_state st s) \<and>
     (\<forall>k<length sources. \<exists>e p b. src_state st (sources ! k) = Some e \<and> e ''packets'' = Some p \<and> e ''bytes'' = Some b \<and>
        ss (sources ! k) = Some (e(''packets'' \<mapsto> p + randint 50 200 (fst (rnd k)),
                              ''bytes'' \<mapsto> b + randint 50 200 (fst (rnd k)) * randint 64 1200 (snd (rnd k)),
                              ''last'' \<mapsto> py_int t)) \<and>
        out ! (3 * k) = (IntV (p + randint 50 200 (fst (rnd k))), src_labels (sources ! k) ''packets'') \<and>
        out ! (3 * k + 1) = (IntV (b + randint 50 200 (fst (rnd k)) * randint 64 1200 (snd (rnd k))), src_labels (sources ! k) ''bytes'') \<and>
        out ! (3 * k + 2) = (IntV (py_int t), src_labels (sources ! k) ''last''))"
proof -
  have ok: "\<forall>s\<in>set sources. \<exists>e p b. src_state st s = Some e \<and> e ''packets'' = Some p \<and> e ''bytes'' = Some b"
    using assms by (simp add: has_fields_iff)
  from src_gauge_loop_Inr [OF distinct_sources ok, of "py_int t" 0 rnd "[]"]
  obtain out ss where
    r: "src_gauge_loop (py_int t) sources 0 rnd (src_state st) [] = Inr ([] @ out, ss)"
    and rest: "length out = 3 * length sources"
      "\<forall>s. s \<notin> set sources \<longrightarrow> ss s = src_state st s"
      "\<forall>k<length sources. \<exists>e p b. src_state st (sources ! k) = Some e \<and> e ''packets'' = Some p \<and> e ''bytes'' = Some b \<and>
        ss (sources ! k) = Some (e(''packets'' \<mapsto> p + randint 50 200 (fst (rnd (0 + k))),
                              ''bytes'' \<mapsto> b + randint 50 200 (fst (rnd (0 + k))) * randint 64 1200 (snd (rnd (0 + k))),
                              ''last'' \<mapsto> py_int t)) \<and>
        out ! (3 * k) = (IntV (p + randint 50 200 (fst (rnd (0 + k)))), src_labels (sources ! k) ''packets'') \<and>
        out ! (3 * k + 1) = (IntV (b + randint 50 200 (fst (rnd (0 + k))) * randint 64 1200 (snd (rnd (0 + k)))), src_labels (sources ! k) ''bytes'') \<and>
        out ! (3 * k + 2) = (IntV (py_int t), src_labels (sources ! k) ''last'')"
    by blast
  have "src_gauge_cb t rnd st = Inr (out, st\<lparr>src_state := ss\<rparr>)"
    using r by (simp add: src_gauge_cb_def Let_def bind_err_def)
  then show ?thesis
    using rest by (intro exI [of _ out] exI [of _ ss]) simp
qed

lemma dst_gauge_cb_effect:
  assumes "has_fields destinations [''packets'', ''bytes''] (dst_state st)"
  shows "\<exists>out ds. dst_gauge_cb rnd st = Inr (out, st\<lparr>dst_state := ds\<rparr>) \<and>
     length out = 2 * length destinations \<and>
     (\<forall>d. d \<notin> set destinations \<longrightarrow> ds d = dst_state st d) \<and>
     (\<forall>k<length destinations. \<exists>e p b. dst_state st (destinations ! k) = Some e \<and> e ''packets'' = Some p \<and> e ''bytes'' = Some b \<and>
        ds (destinations ! k) = Some (e(''packets'' \<mapsto> p + randint 40 160 (fst (rnd k)),
                              ''bytes'' \<mapsto> b + randint 40 160 (fst (rnd k)) * randint 64 1200 (snd (rnd k)))) \<and>
        out ! (2 * k) = (IntV (p + randint 40 160 (fst (rnd k))), dst_labels (destinations ! k) ''packets'') \<and>
        out ! (2 * k + 1) = (IntV (b + randint 40 160 (fst (rnd k)) * randint 64 1200 (snd (rnd k))), dst_labels (destinations ! k) ''bytes''))"
proof -
  have ok: "\<forall>s\<in>set destinations. \<exists>e p b. dst_state st s = Some e \<and> e ''packets'' = Some p \<and> e ''bytes'' = Some b"
    using assms by (simp add: has_fields_iff)
  from dst_gauge_loop_Inr [OF distinct_destinations ok, of 0 rnd "[]"]
  obtain out ds where
    r: "dst_gauge_loop destinations 0 rnd (dst_state st) [] = Inr ([] @ out, ds)"
    and rest: "length out = 2 * length destinations"
      "\<forall>d. d \<notin> set destinations \<longrightarrow> ds d = dst_state st d"
      "\<forall>k<length destinations. \<exists>e p b. dst_state st (destinations ! k) = Some e \<and> e ''packets'' = Some p \<and> e ''bytes'' = Some b \<and>
        ds (destinations ! k) = Some (e(''packets'' \<mapsto> p + randint 40 160 (fst (rnd (0 + k))),
                              ''bytes'' \<mapsto> b + randint 40 160 (fst (rnd (0 + k))) * randint 64 1200 (snd (rnd (0 + k))))) \<and>
        out ! (2 * k) = (IntV (p + randint 40 160 (fst (rnd (0 + k)))), dst_labels (destinations ! k) ''packets'') \<and>
        out ! (2 * k + 1) = (IntV (b + randint 40 160 (fst (rnd (0 + k))) * randint 64 1200 (snd (rnd (0 + k)))), dst_labels (destinations ! k) ''bytes'')"
    by blast
  have "dst_gauge_cb rnd st = Inr (out, st\<lparr>dst_state := ds\<rparr>)"
    using r by (simp add: dst_gauge_cb_def Let_def bind_err_def)
  then show ?thesis
    using rest by (intro exI [of _ out] exI [of _ ds]) simp
qed

text \<open>What the gauge callbacks keep: the well-formedness of the stores, and the absence of a field.\<close>

lemma src_gauge_cb_wf:
  assumes "has_fields sources [''packets'', ''bytes''] (src_state st)"
  shows "\<exists>out ss. src_gauge_cb t rnd st = Inr (out, st\<lparr>src_state := ss\<rparr>) \<and>
           has_fields sources [''packets'', ''bytes''] ss"
proof -
  from src_gauge_cb_effect [OF assms, of t rnd] obtain out ss where
    r: "src_gauge_cb t rnd st = Inr (out, st\<lparr>src_state := ss\<rparr>)"
    and each: "\<forall>k<length sources. \<exists>e p b. src_state st (sources ! k) = Some e \<and> e ''packets'' = Some p \<and> e ''bytes'' = Some b \<and>
        ss (sources ! k) = Some (e(''packets'' \<mapsto> p + randint 50 200 (fst (rnd k)),
                              ''bytes'' \<mapsto> b + randint 50 200 (fst (rnd k)) * randint 64 1200 (snd (rnd k)),
                              ''last'' \<mapsto> py_int t))"
    by blast
  have "\<exists>e p b. ss s = Some e \<and> e ''packets'' = Some p \<and> e ''bytes'' = Some b" if "s \<in> set sources" for s
  proof -
    from that obtain k where k: "k < length sources" "sources ! k = s"
      by (auto simp: in_set_conv_nth)
    from each k show ?thesis by fastforce
  qed
  then have "has_fields sources [''packets'', ''bytes''] ss"
    by (simp add: has_fields_iff)
  with r show ?thesis by blast
qed

lemma dst_gauge_cb_wf:
  assumes "has_fields destinations [''packets'', ''bytes''] (dst_state st)"
  shows "\<exists>out ds. dst_gauge_cb rnd st = Inr (out, st\<lparr>dst_state := ds\<rparr>) \<and>
           has_fields destinations [''packets'', ''bytes''] ds \<and>
           (\<forall>d. field ds d ''last'' = field (dst_state st) d ''last'')"
proof -
  from dst_gauge_cb_effect [OF assms, of rnd] obtain out ds where
    r: "dst_gauge_cb rnd st = Inr (out, st\<lparr>dst_state := ds\<rparr>)"
    and frame: "\<forall>d. d \<notin> set destinations \<longrightarrow> ds d = dst_state st d"
    and each: "\<forall>k<length destinations. \<exists>e p b. dst_state st (destinations ! k) = Some e \<and> e ''packets'' = Some p \<and> e ''bytes'' = Some b \<and>
        ds (destinations ! k) = Some (e(''packets'' \<mapsto> p + randint 40 160 (fst (rnd k)),
                              ''bytes'' \<mapsto> b + randint 40 160 (fst (rnd k)) * randint 64 1200 (snd (rnd k))))"
    by blast
  have in_dst: "\<exists>e p b v w. dst_state st d = Some e \<and> ds d = Some (e(''packets'' \<mapsto> v, ''bytes'' \<mapsto> w))"
    if "d \<in> set destinations" for d
  proof -
    from that obtain k where k: "k < length destinations" "destinations ! k = d"
      by (auto simp: in_set_conv_nth)
    from each k show ?thesis by fastforce
  qed
  have wf: "has_fields destinations [''packets'', ''bytes''] ds"
    unfolding has_fields_iff using in_dst by fastforce
  have last: "field ds d ''last'' = field (dst_state st) d ''last''" for d
  proof (cases "d \<in> set destinations")
    case True
    from in_dst [OF True] show ?thesis by (auto simp: field_def)
  next
    case False
    then show ?thesis using frame by (simp add: field_def)
  qed
  from r wf last show ?thesis by blast
qed

subsection \<open>Operations and executions\<close>

lemma item_size_bounds: "200 \<le> item_size d \<and> item_size d \<le> 4000"
  using randint_bounds [of 200 4000 "r_size d"] by (simp add: item_size_def)

lemma item_packets_nonneg: "0 \<le> item_size d div 512"
  using item_size_bounds [of d] by (simp add: pos_imp_zdiv_nonneg_iff)

lemma packet_rate_cb_totals:
  "packet_rate_cb now st = Inr (out, st') \<Longrightarrow>
     packets_in_total st' = packets_in_total st \<and> packets_out_total st' = packets_out_total st"
  by (auto simp: packet_rate_cb_eq)

lemma src_gauge_cb_totals:
  "src_gauge_cb t rnd st = Inr (out, st') \<Longrightarrow>
     packets_in_total st' = packets_in_total st \<and> packets_out_total st' = packets_out_total st"
  by (auto simp: src_gauge_cb_def Let_def bind_err_def split: sum.splits prod.splits)

lemma dst_gauge_cb_totals:
  "dst_gauge_cb rnd st = Inr (out, st') \<Longrightarrow>
     packets_in_total st' = packets_in_total st \<and> packets_out_total st' = packets_out_total st"
  by (auto simp: dst_gauge_cb_def Let_def bind_err_def split: sum.splits prod.splits)

lemma main_iteration_totals:
  assumes "main_iteration r_req root_id draws st = Inr st'"
  shows "packets_in_total st \<le> packets_in_total st' \<and> packets_out_total st \<le> packets_out_total st' \<and>
         packets_in_total st' - packets_in_total st = packets_out_total st' - packets_out_total st"
proof -
  have "0 \<le> (\<Sum>k<nat (req_count r_req). item_size (draws k) div 512)"
    by (rule sum_nonneg) (rule item_packets_nonneg)
  then show ?thesis
    using main_iteration_effect [of r_req root_id draws st] assms by auto
qed

lemma exec_op_totals:
  assumes "exec_op x st = Inr st'"
  shows "packets_in_total st \<le> packets_in_total st' \<and> packets_out_total st \<le> packets_out_total st' \<and>
         packets_in_total st' - packets_in_total st = packets_out_total st' - packets_out_total st"
proof (cases x)
  case (MainIteration r_req root_id draws)
  then show ?thesis using assms main_iteration_totals by simp
next
  case PacketsInCb
  then show ?thesis using assms by simp
next
  case PacketsOutCb
  then show ?thesis using assms by simp
next
  case (PacketRateCb now)
  then show ?thesis using assms
    by (auto simp: bind_err_def split: sum.splits prod.splits dest: packet_rate_cb_totals)
next
  case (SrcGaugeCb t rnd)
  then show ?thesis using assms
    by (auto simp: bind_err_def split: sum.splits prod.splits dest: src_gauge_cb_totals)
next
  case (DstGaugeCb rnd)
  then show ?thesis using assms
    by (auto simp: bind_err_def split: sum.splits prod.splits dest: dst_gauge_cb_totals)
qed

lemma run_totals:
  "run ops st = Inr st' \<Longrightarrow>
     packets_in_total st \<le> packets_in_total st' \<and> packets_out_total st \<le> packets_out_total st' \<and>
     packets_in_total st' - packets_in_total st = packets_out_total st' - packets_out_total st"
proof (induction ops arbitrary: st)
  case Nil
  then show ?case by simp
next
  case (Cons x xs)
  from Cons.prems obtain st1 where
    a: "exec_op x st = Inr st1" and b: "run xs st1 = Inr st'"
    by (auto simp: bind_err_def split: sum.splits)
  from exec_op_totals [OF a] Cons.IH [OF b] show ?case by linarith
qed

lemma exec_op_inv:
  assumes "wf_state st"
  shows "\<exists>st' rs. exec_op x st = Inr st' \<and> wf_state st' \<and>
     (\<forall>d. field (dst_state st') d ''last'' = field (dst_state st) d ''last'') \<and>
     sink_writable st' = sink_writable st \<and> span_stack st' = span_stack st \<and>
     sink_lines st' = sink_lines st @ rs \<and> (\<forall>r\<in>set rs. \<exists>d tid. r = log_entry d tid)"
proof (cases x)
  case (MainIteration r_req root_id draws)
  let ?rs = "if sink_writable st
        then map (\<lambda>k. log_entry (draws k) (current_trace_id (start_as_current_span ''process_batch'' root_id st)))
               [0..<nat (req_count r_req)]
        else []"
  from main_iteration_effect [of r_req root_id draws st] obtain st' where
    r: "main_iteration r_req root_id draws st = Inr st'"
    and f: "src_state st' = src_state st" "dst_state st' = dst_state st"
      "span_stack st' = span_stack st" "sink_writable st' = sink_writable st"
      "sink_lines st' = sink_lines st @ ?rs"
    by blast
  have wf: "wf_state st'" using assms f by (simp add: wf_state_def)
  have rs: "\<forall>r\<in>set ?rs. \<exists>d tid. r = log_entry d tid" by auto
  show ?thesis
    using MainIteration r f wf rs by (intro exI [of _ st'] exI [of _ ?rs]) simp
next
  case PacketsInCb
  then show ?thesis using assms by simp
next
  case PacketsOutCb
  then show ?thesis using assms by simp
next
  case (PacketRateCb now)
  then show ?thesis using assms by (simp add: packet_rate_cb_eq bind_err_def wf_state_def)
next
  case (SrcGaugeCb t rnd)
  from assms have "has_fields sources [''packets'', ''bytes''] (src_state st)"
    by (simp add: wf_state_def)
  from src_gauge_cb_wf [OF this, of t rnd] obtain out ss where
    "src_gauge_cb t rnd st = Inr (out, st\<lparr>src_state := ss\<rparr>)"
    "has_fields sources [''packets'', ''bytes''] ss"
    by blast
  then show ?thesis using SrcGaugeCb assms by (simp add: bind_err_def wf_state_def)
next
  case (DstGaugeCb rnd)
  from assms have "has_fields destinations [''packets'', ''bytes''] (dst_state st)"
    by (simp add: wf_state_def)
  from dst_gauge_cb_wf [OF this, of rnd] obtain out ds where
    "dst_gauge_cb rnd st = Inr (out, st\<lparr>dst_state := ds\<rparr>)"
    "has_fields destinations [''packets'', ''bytes''] ds"
    "\<forall>d. field ds d ''last'' = field (dst_state st) d ''last''"
    by blast
  then show ?thesis using DstGaugeCb assms by (simp add: bind_err_def wf_state_def)
qed

lemma run_inv:
  "wf_state st \<Longrightarrow>
   \<exists>st' rs. run ops st = Inr st' \<and> wf_state st' \<and>
     (\<forall>d. field (dst_state st') d ''last'' = field (dst_state st) d ''last'') \<and>
     sink_writable st' = sink_writable st \<and> span_stack st' = span_stack st \<and>
     sink_lines st' = sink_lines st @ rs \<and> (\<forall>r\<in>set rs. \<exists>d tid. r = log_entry d tid)"
proof (induction ops arbitrary: st)
  case Nil
  then show ?case by simp
next
  case (Cons x xs)
  from exec_op_inv [OF Cons.prems, of x] obtain st1 rs1 where
    a: "exec_op x st = Inr st1" "wf_state st1"
      "\<forall>d. field (dst_state st1) d ''last'' = field (dst_state st) d ''last''"
      "sink_writable st1 = sink_writable st" "span_stack st1 = span_stack st"
      "sink_lines st1 = sink_lines st @ rs1" "\<forall>r\<in>set rs1. \<exists>d tid. r = log_entry d tid"
    by blast
  from Cons.IH [OF a(2)] obtain st' rs2 where
    b: "run xs st1 = Inr st'" "wf_state st'"
      "\<forall>d. field (dst_state st') d ''last'' = field (dst_state st1) d ''last''"
      "sink_writable st' = sink_writable st1" "span_stack st' = span_stack st1"
      "sink_lines st' = sink_lines st1 @ rs2" "\<forall>r\<in>set rs2. \<exists>d tid. r = log_entry d tid"
    by blast
  have r: "run (x # xs) st = Inr st'" using a(1) b(1) by (simp add: bind_err_def)
  have rs: "\<forall>r\<in>set (rs1 @ rs2). \<exists>d tid. r = log_entry d tid" using a(7) b(7) by auto
  show ?case
    using r b(2) a(3) b(3) a(4) b(4) a(5) b(5) a(6) b(6) rs
    by (intro exI [of _ st'] exI [of _ "rs1 @ rs2"]) simp
qed

lemma wf_init_state: "wf_state (init_state start w)"
  by (simp add: wf_state_def has_fields_def init_state_def sources_def destinations_def
      field_def src_entry0_def dst_entry0_def)

lemma init_dst_no_last: "field (dst_state (init_state start w)) d ''last'' = None"
  by (simp add: init_state_def destinations_def field_def dst_entry0_def)

subsection \<open>The example item and the current trace identity\<close>

lemma demo_item_facts:
  "item_size demo_item = 512" "item_status demo_item = ''error''"
  "item_src demo_item = ''source1''" "item_dst demo_item = ''dest1''"
  "item_latency_ms demo_item = 0"
  by (simp_all add: demo_item_def item_size_def item_status_def item_src_def item_dst_def
      item_latency_ms_def randint_def randbelow_def choice_def sources_def destinations_def py_int_def)

lemma root_trace_id:
  "span_stack st = [] \<Longrightarrow> root_id \<noteq> 0 \<Longrightarrow>
     current_trace_id (start_as_current_span nm root_id st) = Some (format_032x root_id)"
  by (simp add: current_trace_id_def get_current_trace_id_def start_as_current_span_def Let_def)

lemma no_span_trace_id: "span_stack st = [] \<Longrightarrow> current_trace_id st = None"
  by (simp add: current_trace_id_def get_current_trace_id_def)

lemma rec_get_trace_id:
  "rec_get (log_entry d tid) ''trace_id'' = Some (case tid of None \<Rightarrow> JNull | Some h \<Rightarrow> JStr h)"
  by (simp add: rec_get_def log_entry_def)

subsection \<open>What the gauge callbacks report\<close>

text \<open>
  C3. In a state whose stores hold every configured entity with its counters, a call of
  \<open>src_gauge_cb\<close> raises nothing and, for the \<open>k\<close>-th source, draws an increment of
  packets between 50 and 200 and a size per packet between 64 and 1200, adds the
  increment to the source's \<open>packets\<close> and increment times size to its \<open>bytes\<close>, and
  reports three observations in this order: the new value of \<open>packets\<close>, the new value of
  \<open>bytes\<close> (old value plus what was added, not what was added) and the refreshed
  \<open>last\<close>. \<open>dst_gauge_cb\<close> does the same for the destinations, with increments between
  40 and 160 and two observations each.
\<close>

theorem gauge_cbs_report_cumulative:
  assumes "wf_state st"
  shows "(\<exists>out st'. src_gauge_cb t rnd st = Inr (out, st') \<and> length out = 3 * length sources \<and>
      (\<forall>k<length sources. \<exists>p b.
         field (src_state st) (sources ! k) ''packets'' = Some p \<and>
         field (src_state st) (sources ! k) ''bytes'' = Some b \<and>
         50 \<le> randint 50 200 (fst (rnd k)) \<and> randint 50 200 (fst (rnd k)) \<le> 200 \<and>
         64 \<le> randint 64 1200 (snd (rnd k)) \<and> randint 64 1200 (snd (rnd k)) \<le> 1200 \<and>
         field (src_state st') (sources ! k) ''packets'' = Some (p + randint 50 200 (fst (rnd k))) \<and>
         field (src_state st') (sources ! k) ''bytes'' =
           Some (b + randint 50 200 (fst (rnd k)) * randint 64 1200 (snd (rnd k))) \<and>
         field (src_state st') (sources ! k) ''last'' = Some (py_int t) \<and>
         out ! (3 * k) = (IntV (p + randint 50 200 (fst (rnd k))), src_labels (sources ! k) ''packets'') \<and>
         out ! (3 * k + 1) =
           (IntV (b + randint 50 200 (fst (rnd k)) * randint 64 1200 (snd (rnd k))), src_labels (sources ! k) ''bytes'') \<and>
         out ! (3 * k + 2) = (IntV (py_int t), src_labels (sources ! k) ''last''))) \<and>
    (\<exists>out st'. dst_gauge_cb rnd2 st = Inr (out, st') \<and> length out = 2 * length destinations \<and>
      (\<forall>k<length destinations. \<exists>p b.
         field (dst_state st) (destinations ! k) ''packets'' = Some p \<and>
         field (dst_state st) (destinations ! k) ''bytes'' = Some b \<and>
         40 \<le> randint 40 160 (fst (rnd2 k)) \<and> randint 40 160 (fst (rnd2 k)) \<le> 160 \<and>
         64 \<le> randint 64 1200 (snd (rnd2 k)) \<and> randint 64 1200 (snd (rnd2 k)) \<le> 1200 \<and>
         field (dst_state st') (destinations ! k) ''packets'' = Some (p + randint 40 160 (fst (rnd2 k))) \<and>
         field (dst_state st') (destinations ! k) ''bytes'' =
           Some (b + randint 40 160 (fst (rnd2 k)) * randint 64 1200 (snd (rnd2 k))) \<and>
         out ! (2 * k) = (IntV (p + randint 40 160 (fst (rnd2 k))), dst_labels (destinations ! k) ''packets'') \<and>
         out ! (2 * k + 1) =
           (IntV (b + randint 40 160 (fst (rnd2 k)) * randint 64 1200 (snd (rnd2 k))), dst_labels (destinations ! k) ''bytes'')))"
proof (rule conjI)
  have hs: "has_fields sources [''packets'', ''bytes''] (src_state st)"
    using assms by (simp add: wf_state_def)
  from src_gauge_cb_effect [OF hs, of t rnd] obtain out ss where
    r: "src_gauge_cb t rnd st = Inr (out, st\<lparr>src_state := ss\<rparr>)"
    and len: "length out = 3 * length sources"
    and each: "\<forall>k<length sources. \<exists>e p b. src_state st (sources ! k) = Some e \<and> e ''packets'' = Some p \<and> e ''bytes'' = Some b \<and>
        ss (sources ! k) = Some (e(''packets'' \<mapsto> p + randint 50 200 (fst (rnd k)),
                              ''bytes'' \<mapsto> b + randint 50 200 (fst (rnd k)) * randint 64 1200 (snd (rnd k)),
                              ''last'' \<mapsto> py_int t)) \<and>
        out ! (3 * k) = (IntV (p + randint 50 200 (fst (rnd k))), src_labels (sources ! k) ''packets'') \<and>
        out ! (3 * k + 1) = (IntV (b + randint 50 200 (fst (rnd k)) * randint 64 1200 (snd (rnd k))), src_labels (sources ! k) ''bytes'') \<and>
        out ! (3 * k + 2) = (IntV (py_int t), src_labels (sources ! k) ''last'')"
    by blast
  have b1: "50 \<le> randint 50 200 x \<and> randint 50 200 x \<le> 200" for x
    by (rule randint_bounds) simp
  have b2: "64 \<le> randint 64 1200 x \<and> randint 64 1200 x \<le> 1200" for x
    by (rule randint_bounds) simp
  have "\<exists>p b.
         field (src_state st) (sources ! k) ''packets'' = Some p \<and>
         field (src_state st) (sources ! k) ''bytes'' = Some b \<and>
         50 \<le> randint 50 200 (fst (rnd k)) \<and> randint 50 200 (fst (rnd k)) \<le> 200 \<and>
         64 \<le> randint 64 1200 (snd (rnd k)) \<and> randint 64 1200 (snd (rnd k)) \<le> 1200 \<and>
         field (src_state (st\<lparr>src_state := ss\<rparr>)) (sources ! k) ''packets'' = Some (p + randint 50 200 (fst (rnd k))) \<and>
         field (src_state (st\<lparr>src_state := ss\<rparr>)) (sources ! k) ''bytes'' =
           Some (b + randint 50 200 (fst (rnd k)) * randint 64 1200 (snd (rnd k))) \<and>
         field (src_state (st\<lparr>src_state := ss\<rparr>)) (sources ! k) ''last'' = Some (py_int t) \<and>
         out ! (3 * k) = (IntV (p + randint 50 200 (fst (rnd k))), src_labels (sources ! k) ''packets'') \<and>
         out ! (3 * k + 1) =
           (IntV (b + randint 50 200 (fst (rnd k)) * randint 64 1200 (snd (rnd k))), src_labels (sources ! k) ''bytes'') \<and>
         out ! (3 * k + 2) = (IntV (py_int t), src_labels (sources ! k) ''last'')"
    if k: "k < length sources" for k
  proof -
    from each k obtain e p b where
      a: "src_state st (sources ! k) = Some e" "e ''packets'' = Some p" "e ''bytes'' = Some b"
        "ss (sources ! k) = Some (e(''packets'' \<mapsto> p + randint 50 200 (fst (rnd k)),
                              ''bytes'' \<mapsto> b + randint 50 200 (fst (rnd k)) * randint 64 1200 (snd (rnd k)),
                              ''last'' \<mapsto> py_int t))"
        "out ! (3 * k) = (IntV (p + randint 50 200 (fst (rnd k))), src_labels (sources ! k) ''packets'')"
        "out ! (3 * k + 1) = (IntV (b + randint 50 200 (fst (rnd k)) * randint 64 1200 (snd (rnd k))), src_labels (sources ! k) ''bytes'')"
        "out ! (3 * k + 2) = (IntV (py_int t), src_labels (sources ! k) ''last'')"
      by blast
    show ?thesis
      using a b1 b2 by (intro exI [of _ p] exI [of _ b]) (simp add: field_def)
  qed
  with r len show "\<exists>out st'. src_gauge_cb t rnd st = Inr (out, st') \<and> length out = 3 * length sources \<and>
      (\<forall>k<length sources. \<exists>p b.
         field (src_state st) (sources ! k) ''packets'' = Some p \<and>
         field (src_state st) (sources ! k) ''bytes'' = Some b \<and>
         50 \<le> randint 50 200 (fst (rnd k)) \<and> randint 50 200 (fst (rnd k)) \<le> 200 \<and>
         64 \<le> randint 64 1200 (snd (rnd k)) \<and> randint 64 1200 (snd (rnd k)) \<le> 1200 \<and>
         field (src_state st') (sources ! k) ''packets'' = Some (p + randint 50 200 (fst (rnd k))) \<and>
         field (src_state st') (sources ! k) ''bytes'' =
           Some (b + randint 50 200 (fst (rnd k)) * randint 64 1200 (snd (rnd k))) \<and>
         field (src_state st') (sources ! k) ''last'' = Some (py_int t) \<and>
         out ! (3 * k) = (IntV (p + randint 50 200 (fst (rnd k))), src_labels (sources ! k) ''packets'') \<and>
         out ! (3 * k + 1) =
           (IntV (b + randint 50 200 (fst (rnd k)) * randint 64 1200 (snd (rnd k))), src_labels (sources ! k) ''bytes'') \<and>
         out ! (3 * k + 2) = (IntV (py_int t), src_labels (sources ! k) ''last''))"
    by blast
next
  have hd: "has_fields destinations [''packets'', ''bytes''] (dst_state st)"
    using assms by (simp add: wf_state_def)
  from dst_gauge_cb_effect [OF hd, of rnd2] obtain out ds where
    r: "dst_gauge_cb rnd2 st = Inr (out, st\<lparr>dst_state := ds\<rparr>)"
    and len: "length out = 2 * length destinations"
    and each: "\<forall>k<length destinations. \<exists>e p b. dst_state st (destinations ! k) = Some e \<and> e ''packets'' = Some p \<and> e ''bytes'' = Some b \<and>
        ds (destinations ! k) = Some (e(''packets'' \<mapsto> p + randint 40 160 (fst (rnd2 k)),
                              ''bytes'' \<mapsto> b + randint 40 160 (fst (rnd2 k)) * randint 64 1200 (snd (rnd2 k)))) \<and>
        out ! (2 * k) = (IntV (p + randint 40 160 (fst (rnd2 k))), dst_labels (destinations ! k) ''packets'') \<and>
        out ! (2 * k + 1) = (IntV (b + randint 40 160 (fst (rnd2 k)) * randint 64 1200 (snd (rnd2 k))), dst_labels (destinations ! k) ''bytes'')"
    by blast
  have b1: "40 \<le> randint 40 160 x \<and> randint 40 160 x \<le> 160" for x
    by (rule randint_bounds) simp
  have b2: "64 \<le> randint 64 1200 x \<and> randint 64 1200 x \<le> 1200" for x
    by (rule randint_bounds) simp
  have "\<exists>p b.
         field (dst_state st) (destinations ! k) ''packets'' = Some p \<and>
         field (dst_state st) (destinations ! k) ''bytes'' = Some b \<and>
         40 \<le> randint 40 160 (fst (rnd2 k)) \<and> randint 40 160 (fst (rnd2 k)) \<le> 160 \<and>
         64 \<le> randint 64 1200 (snd (rnd2 k)) \<and> randint 64 1200 (snd (rnd2 k)) \<le> 1200 \<and>
         field (dst_state (st\<lparr>dst_state := ds\<rparr>)) (destinations ! k) ''packets'' = Some (p + randint 40 160 (fst (rnd2 k))) \<and>
         field (dst_state (st\<lparr>dst_state := ds\<rparr>)) (destinations ! k) ''bytes'' =
           Some (b + randint 40 160 (fst (rnd2 k)) * randint 64 1200 (snd (rnd2 k))) \<and>
         out ! (2 * k) = (IntV (p + randint 40 160 (fst (rnd2 k))), dst_labels (destinations ! k) ''packets'') \<and>
         out ! (2 * k + 1) =
           (IntV (b + randint 40 160 (fst (rnd2 k)) * randint 64 1200 (snd (rnd2 k))), dst_labels (destinations ! k) ''bytes'')"
    if k: "k < length destinations" for k
  proof -
    from each k obtain e p b where
      a: "dst_state st (destinations ! k) = Some e" "e ''packets'' = Some p" "e ''bytes'' = Some b"
        "ds (destinations ! k) = Some (e(''packets'' \<mapsto> p + randint 40 160 (fst (rnd2 k)),
                              ''bytes'' \<mapsto> b + randint 40 160 (fst (rnd2 k)) * randint 64 1200 (snd (rnd2 k))))"
        "out ! (2 * k) = (IntV (p + randint 40 160 (fst (rnd2 k))), dst_labels (destinations ! k) ''packets'')"
        "out ! (2 * k + 1) = (IntV (b + randint 40 160 (fst (rnd2 k)) * randint 64 1200 (snd (rnd2 k))), dst_labels (destinations ! k) ''bytes'')"
      by blast
    show ?thesis
      using a b1 b2 by (intro exI [of _ p] exI [of _ b]) (simp add: field_def)
  qed
  with r len show "\<exists>out st'. dst_gauge_cb rnd2 st = Inr (out, st') \<and> length out = 2 * length destinations \<and>
      (\<forall>k<length destinations. \<exists>p b.
         field (dst_state st) (destinations ! k) ''packets'' = Some p \<and>
         field (dst_state st) (destinations ! k) ''bytes'' = Some b \<and>
         40 \<le> randint 40 160 (fst (rnd2 k)) \<and> randint 40 160 (fst (rnd2 k)) \<le> 160 \<and>
         64 \<le> randint 64 1200 (snd (rnd2 k)) \<and> randint 64 1200 (snd (rnd2 k)) \<le> 1200 \<and>
         field (dst_state st') (destinations ! k) ''packets'' = Some (p + randint 40 160 (fst (rnd2 k))) \<and>
         field (dst_state st') (destinations ! k) ''bytes'' =
           Some (b + randint 40 160 (fst (rnd2 k)) * randint 64 1200 (snd (rnd2 k))) \<and>
         out ! (2 * k) = (IntV (p + randint 40 160 (fst (rnd2 k))), dst_labels (destinations ! k) ''packets'') \<and>
         out ! (2 * k + 1) =
           (IntV (b + randint 40 160 (fst (rnd2 k)) * randint 64 1200 (snd (rnd2 k))), dst_labels (destinations ! k) ''bytes''))"
    by blast
qed

lemma init_fields:
  "field (src_state (init_state start w)) ''source1'' ''packets'' = Some 0"
  "field (src_state (init_state start w)) ''source1'' ''bytes'' = Some 0"
  "field (dst_state (init_state start w)) ''dest1'' ''packets'' = Some 0"
  "field (dst_state (init_state start w)) ''dest1'' ''bytes'' = Some 0"
  by (simp_all add: init_state_def sources_def destinations_def field_def src_entry0_def dst_entry0_def)

theorem gauge_cbs_report_cumulative_witness:
  "wf_state (init_state 0 True) \<and>
   (\<exists>out st'. src_gauge_cb 7 (\<lambda>k. (3, 5)) (init_state 0 True) = Inr (out, st') \<and>
      field (src_state st') ''source1'' ''packets'' = Some 53 \<and>
      field (src_state st') ''source1'' ''bytes'' = Some 3657 \<and>
      out ! 0 = (IntV 53, src_labels ''source1'' ''packets'') \<and>
      out ! 1 = (IntV 3657, src_labels ''source1'' ''bytes'') \<and>
      out ! 2 = (IntV 7, src_labels ''source1'' ''last'')) \<and>
   (\<exists>out st'. dst_gauge_cb (\<lambda>k. (3, 5)) (init_state 0 True) = Inr (out, st') \<and>
      field (dst_state st') ''dest1'' ''packets'' = Some 43 \<and>
      field (dst_state st') ''dest1'' ''bytes'' = Some 2967 \<and>
      out ! 0 = (IntV 43, dst_labels ''dest1'' ''packets'') \<and>
      out ! 1 = (IntV 2967, dst_labels ''dest1'' ''bytes''))"
proof -
  let ?s0 = "init_state 0 True"
  let ?pk = "randint 50 200 (fst (3::nat, 5::nat))"
  let ?qk = "randint 40 160 (fst (3::nat, 5::nat))"
  let ?sz = "randint 64 1200 (snd (3::nat, 5::nat))"
  have wf: "wf_state ?s0" by (rule wf_init_state)
  have s0: "0 < length sources" "sources ! 0 = ''source1''"
    by (simp_all add: sources_def)
  have d0: "0 < length destinations" "destinations ! 0 = ''dest1''"
    by (simp_all add: destinations_def)
  have v: "randint 50 200 3 = 53" "randint 64 1200 5 = 69" "randint 40 160 3 = 43" "py_int 7 = 7"
    by (simp_all add: randint_def randbelow_def py_int_def)
  note inst = gauge_cbs_report_cumulative [OF wf, of 7 "\<lambda>k. (3, 5)" "\<lambda>k. (3, 5)"]
  from inst obtain out st' where
    a: "src_gauge_cb 7 (\<lambda>k. (3, 5)) ?s0 = Inr (out, st')"
    and b: "\<forall>k<length sources. \<exists>p b.
         field (src_state ?s0) (sources ! k) ''packets'' = Some p \<and>
         field (src_state ?s0) (sources ! k) ''bytes'' = Some b \<and>
         50 \<le> ?pk \<and> ?pk \<le> 200 \<and> 64 \<le> ?sz \<and> ?sz \<le> 1200 \<and>
         field (src_state st') (sources ! k) ''packets'' = Some (p + ?pk) \<and>
         field (src_state st') (sources ! k) ''bytes'' = Some (b + ?pk * ?sz) \<and>
         field (src_state st') (sources ! k) ''last'' = Some (py_int 7) \<and>
         out ! (3 * k) = (IntV (p + ?pk), src_labels (sources ! k) ''packets'') \<and>
         out ! (3 * k + 1) = (IntV (b + ?pk * ?sz), src_labels (sources ! k) ''bytes'') \<and>
         out ! (3 * k + 2) = (IntV (py_int 7), src_labels (sources ! k) ''last'')"
    by blast
  from b s0(1) obtain p b where
    "field (src_state ?s0) (sources ! 0) ''packets'' = Some p"
    "field (src_state ?s0) (sources ! 0) ''bytes'' = Some b"
    "field (src_state st') (sources ! 0) ''packets'' = Some (p + ?pk)"
    "field (src_state st') (sources ! 0) ''bytes'' = Some (b + ?pk * ?sz)"
    "out ! (3 * 0) = (IntV (p + ?pk), src_labels (sources ! 0) ''packets'')"
    "out ! (3 * 0 + 1) = (IntV (b + ?pk * ?sz), src_labels (sources ! 0) ''bytes'')"
    "out ! (3 * 0 + 2) = (IntV (py_int 7), src_labels (sources ! 0) ''last'')"
    by blast
  then have src: "field (src_state st') ''source1'' ''packets'' = Some 53"
      "field (src_state st') ''source1'' ''bytes'' = Some 3657"
      "out ! 0 = (IntV 53, src_labels ''source1'' ''packets'')"
      "out ! 1 = (IntV 3657, src_labels ''source1'' ''bytes'')"
      "out ! 2 = (IntV 7, src_labels ''source1'' ''last'')"
    by (simp_all add: s0 v init_fields numeral_2_eq_2)
  from inst obtain out2 st2 where
    c: "dst_gauge_cb (\<lambda>k. (3, 5)) ?s0 = Inr (out2, st2)"
    and d: "\<forall>k<length destinations. \<exists>p b.
         field (dst_state ?s0) (destinations ! k) ''packets'' = Some p \<and>
         field (dst_state ?s0) (destinations ! k) ''bytes'' = Some b \<and>
         40 \<le> ?qk \<and> ?qk \<le> 160 \<and> 64 \<le> ?sz \<and> ?sz \<le> 1200 \<and>
         field (dst_state st2) (destinations ! k) ''packets'' = Some (p + ?qk) \<and>
         field (dst_state st2) (destinations ! k) ''bytes'' = Some (b + ?qk * ?sz) \<and>
         out2 ! (2 * k) = (IntV (p + ?qk), dst_labels (destinations ! k) ''packets'') \<and>
         out2 ! (2 * k + 1) = (IntV (b + ?qk * ?sz), dst_labels (destinations ! k) ''bytes'')"
    by blast
  from d d0(1) obtain p2 b2 where
    "field (dst_state ?s0) (destinations ! 0) ''packets'' = Some p2"
    "field (dst_state ?s0) (destinations ! 0) ''bytes'' = Some b2"
    "field (dst_state st2) (destinations ! 0) ''packets'' = Some (p2 + ?qk)"
    "field (dst_state st2) (destinations ! 0) ''bytes'' = Some (b2 + ?qk * ?sz)"
    "out2 ! (2 * 0) = (IntV (p2 + ?qk), dst_labels (destinations ! 0) ''packets'')"
    "out2 ! (2 * 0 + 1) = (IntV (b2 + ?qk * ?sz), dst_labels (destinations ! 0) ''bytes'')"
    by blast
  then have dst: "field (dst_state st2) ''dest1'' ''packets'' = Some 43"
      "field (dst_state st2) ''dest1'' ''bytes'' = Some 2967"
      "out2 ! 0 = (IntV 43, dst_labels ''dest1'' ''packets'')"
      "out2 ! 1 = (IntV 2967, dst_labels ''dest1'' ''bytes'')"
    by (simp_all add: d0 v init_fields)
  show ?thesis
    using wf a src c dst by blast
qed

subsection \<open>The status and the level of a record\<close>

lemma mod4_cases: "(r::nat) mod 4 = 0 \<or> r mod 4 = 1 \<or> r mod 4 = 2 \<or> r mod 4 = 3"
  by presburger

lemma status_list:
  "[''ok'', ''ok'', ''ok'', ''error''] ! 0 = ''ok''"
  "[''ok'', ''ok'', ''ok'', ''error''] ! 1 = ''ok''"
  "[''ok'', ''ok'', ''ok'', ''error''] ! 2 = ''ok''"
  "[''ok'', ''ok'', ''ok'', ''error''] ! 3 = ''error''"
  by (simp_all add: nth_Cons')

lemma item_status_cases: "item_status d = ''ok'' \<or> item_status d = ''error''"
proof -
  have len: "length [''ok'', ''ok'', ''ok'', ''error''] = 4" by simp
  from mod4_cases [of "r_status d"] show ?thesis
    unfolding item_status_def choice_def randbelow_def len
    by (elim disjE) (simp_all only: status_list, simp_all)
qed


lemma rec_get_level:
  "rec_get (log_entry d tid) ''level'' = Some (JStr (if item_status d = ''ok'' then ''INFO'' else ''ERROR''))"
  by (simp add: rec_get_def log_entry_def)

lemma rec_get_status:
  "rec_get (log_entry d tid) ''status'' = Some (JStr (item_status d))"
  by (simp add: rec_get_def log_entry_def)

lemma level_matches_log_entry: "level_matches_status (log_entry d tid)"
proof -
  from item_status_cases [of d] show ?thesis
  proof
    assume "item_status d = ''ok''"
    then show ?thesis
      by (simp add: level_matches_status_def rec_get_level rec_get_status)
  next
    assume "item_status d = ''error''"
    then show ?thesis
      by (simp add: level_matches_status_def rec_get_level rec_get_status)
  qed
qed

subsection \<open>The totals never decrease\<close>

text \<open>
  C4. Over any execution that runs to its end, from whatever state, neither total
  decreases: what \<open>packets_in_cb\<close> and \<open>packets_out_cb\<close> report after the execution is at
  least what they report before it. The only statements that change the totals are the
  two increments of an item, and each adds \<open>size // 512\<close>, which is not negative because
  the size is at least 200.
\<close>

theorem totals_monotone:
  assumes "run ops st1 = Inr st2"
  shows "(\<exists>a b. packets_in_cb st1 = [(IntV a, [(''hostname'', ''host1'')])] \<and>
            packets_in_cb st2 = [(IntV b, [(''hostname'', ''host1'')])] \<and> a \<le> b) \<and>
         (\<exists>a b. packets_out_cb st1 = [(IntV a, [(''hostname'', ''host1'')])] \<and>
            packets_out_cb st2 = [(IntV b, [(''hostname'', ''host1'')])] \<and> a \<le> b) \<and>
         200 \<le> item_size d \<and> 0 \<le> item_size d div 512 \<and>
         packets_in_total (add_packets_in (item_size d) st) = packets_in_total st + item_size d div 512 \<and>
         packets_out_total (add_packets_in (item_size d) st) = packets_out_total st \<and>
         packets_out_total (add_packets_out (item_size d) st) = packets_out_total st + item_size d div 512 \<and>
         packets_in_total (add_packets_out (item_size d) st) = packets_in_total st"
proof -
  from run_totals [OF assms] have
    m: "packets_in_total st1 \<le> packets_in_total st2" "packets_out_total st1 \<le> packets_out_total st2"
    by simp_all
  show ?thesis
    using m item_size_bounds [of d] item_packets_nonneg [of d]
    by (simp add: packets_in_cb_def packets_out_cb_def add_packets_in_def add_packets_out_def)
qed

lemma demo_iteration:
  assumes "root_id \<noteq> 0"
  shows "\<exists>st'. main_iteration 0 root_id (\<lambda>i. demo_item) (init_state start w) = Inr st' \<and>
     packets_in_total st' = 3 \<and> packets_out_total st' = 3 \<and>
     src_state st' = src_state (init_state start w) \<and> dst_state st' = dst_state (init_state start w) \<and>
     sink_lines st' = (if w then replicate 3 (log_entry demo_item (Some (format_032x root_id))) else [])"
proof -
  have n: "nat (req_count 0) = Suc (Suc (Suc 0))"
    by (simp add: req_count_def randint_def randbelow_def)
  have tid: "current_trace_id (start_as_current_span ''process_batch'' root_id (init_state start w)) =
      Some (format_032x root_id)"
    using _ assms by (rule root_trace_id) (simp add: init_state_def)
  have z: "packets_in_total (init_state start w) = 0" "packets_out_total (init_state start w) = 0"
    "sink_lines (init_state start w) = []" "sink_writable (init_state start w) = w"
    by (simp_all add: init_state_def)
  have three: "map (\<lambda>k. log_entry demo_item (Some (format_032x root_id))) [0..<Suc (Suc (Suc 0))] =
      replicate 3 (log_entry demo_item (Some (format_032x root_id)))"
    by (simp add: upt_rec numeral_3_eq_3)
  have sum3: "(\<Sum>k<Suc (Suc (Suc 0)). item_size demo_item div 512) = 3"
    by (simp add: demo_item_facts)
  from main_iteration_effect [of 0 root_id "\<lambda>i. demo_item" "init_state start w"] obtain st' where
    r: "main_iteration 0 root_id (\<lambda>i. demo_item) (init_state start w) = Inr st'"
    and q: "packets_in_total st' = packets_in_total (init_state start w) +
        (\<Sum>k<nat (req_count 0). item_size demo_item div 512)"
      "packets_out_total st' = packets_out_total (init_state start w) +
        (\<Sum>k<nat (req_count 0). item_size demo_item div 512)"
      "src_state st' = src_state (init_state start w)" "dst_state st' = dst_state (init_state start w)"
      "sink_lines st' = sink_lines (init_state start w) @
       (if sink_writable (init_state start w)
        then map (\<lambda>k. log_entry demo_item
                 (current_trace_id (start_as_current_span ''process_batch'' root_id (init_state start w))))
               [0..<nat (req_count 0)]
        else [])"
    by blast
  have lines: "sink_lines st' = (if w then replicate 3 (log_entry demo_item (Some (format_032x root_id))) else [])"
    using q(5) by (simp only: n tid z three append_Nil)
  have totals: "packets_in_total st' = 3" "packets_out_total st' = 3"
    using q(1,2) by (simp_all only: n z sum3 add_0)
  show ?thesis
    using r totals q(3,4) lines by blast
qed

theorem totals_monotone_witness:
  "\<exists>st2. run [PacketsInCb, MainIteration 0 1 (\<lambda>i. demo_item), PacketsOutCb] (init_state 0 True) = Inr st2 \<and>
     packets_in_cb (init_state 0 True) = [(IntV 0, [(''hostname'', ''host1'')])] \<and>
     packets_in_cb st2 = [(IntV 3, [(''hostname'', ''host1'')])] \<and>
     packets_in_total (init_state 0 True) \<le> packets_in_total st2"
proof -
  from demo_iteration [of 1 0 True] obtain st2 where
    a: "main_iteration 0 1 (\<lambda>i. demo_item) (init_state 0 True) = Inr st2"
    and b: "packets_in_total st2 = 3"
    by blast
  have r: "run [PacketsInCb, MainIteration 0 1 (\<lambda>i. demo_item), PacketsOutCb] (init_state 0 True) = Inr st2"
    using a by (simp add: bind_err_def)
  have z: "packets_in_total (init_state 0 True) = 0" by (simp add: init_state_def)
  from totals_monotone [OF r] have "packets_in_total (init_state 0 True) \<le> packets_in_total st2"
    by (simp add: packets_in_cb_def)
  then show ?thesis
    using r b z by (simp add: packets_in_cb_def)
qed

subsection \<open>The log emitter and the correlation identity\<close>

text \<open>
  C5 does not hold: an unwritable log file makes \<open>log_json\<close> return normally. With the
  file of the initial state unwritable, logging a record raises nothing; the record is
  not in the file, and only the handler's error hook has been called.
\<close>

theorem log_json_unwritable_counterexample:
  "\<not> sink_writable (init_state 0 False) \<and>
   log_json (log_entry demo_item None) (init_state 0 False) =
     Inr ((init_state 0 False)\<lparr>handler_errors := 1\<rparr>) \<and>
   sink_lines ((init_state 0 False)\<lparr>handler_errors := 1\<rparr>) = []"
  by (simp add: log_json_Inr handler_emit_def init_state_def)

text \<open>
  C5, amended. For every record, \<open>log_json\<close> returns normally. With a writable file the
  record is appended; with an unwritable one the file is as before and the handler's
  error hook has been called once more. In both cases the handler's lock is back at its
  depth, and nothing else of the state has changed.
\<close>

theorem log_json_never_raises:
  "(sink_writable st \<longrightarrow> log_json r st = Inr (st\<lparr>sink_lines := sink_lines st @ [r]\<rparr>)) \<and>
   (\<not> sink_writable st \<longrightarrow> log_json r st = Inr (st\<lparr>handler_errors := handler_errors st + 1\<rparr>))"
  by (simp add: log_json_Inr handler_emit_def)

theorem log_json_never_raises_witness:
  "sink_writable (init_state 0 True) \<and> \<not> sink_writable (init_state 0 False) \<and>
   log_json [] (init_state 0 True) = Inr ((init_state 0 True)\<lparr>sink_lines := [[]]\<rparr>) \<and>
   log_json [] (init_state 0 False) = Inr ((init_state 0 False)\<lparr>handler_errors := 1\<rparr>)"
proof -
  have w: "sink_writable (init_state 0 True)" "\<not> sink_writable (init_state 0 False)"
    "sink_lines (init_state 0 True) = []" "handler_errors (init_state 0 False) = 0"
    by (simp_all add: init_state_def)
  from log_json_never_raises [of "init_state 0 True" "[]"] w
  have a: "log_json [] (init_state 0 True) = Inr ((init_state 0 True)\<lparr>sink_lines := [[]]\<rparr>)"
    by simp
  from log_json_never_raises [of "init_state 0 False" "[]"] w
  have b: "log_json [] (init_state 0 False) = Inr ((init_state 0 False)\<lparr>handler_errors := 1\<rparr>)"
    by simp
  show ?thesis using w a b by simp
qed

text \<open>
  C6. With no span open, lines 166 and 167 yield \<open>None\<close>, the record built from it has a
  null \<open>trace_id\<close>, and the item that logs it raises nothing: the record is appended to a
  writable log file. With the root span of a pass open, started with no span open and
  with a valid (non-zero) trace identity \<open>root_id\<close>, they yield that identity in the
  format \<open>032x\<close>, and the item's record carries it as its \<open>trace_id\<close>.
\<close>

theorem log_correlation_identity:
  "(span_stack st = [] \<longrightarrow>
      current_trace_id st = None \<and>
      rec_get (log_entry d (current_trace_id st)) ''trace_id'' = Some JNull \<and>
      (\<exists>st'. process_item d (st, bl) = Inr (st', bl + item_latency_ms d) \<and>
         sink_lines st' = sink_lines st @ (if sink_writable st then [log_entry d None] else []))) \<and>
   (span_stack st = [] \<and> root_id \<noteq> 0 \<longrightarrow>
      current_trace_id (start_as_current_span ''process_batch'' root_id st) = Some (format_032x root_id) \<and>
      rec_get (log_entry d (Some (format_032x root_id))) ''trace_id'' = Some (JStr (format_032x root_id)) \<and>
      (\<exists>st'. process_item d (start_as_current_span ''process_batch'' root_id st, bl) =
               Inr (st', bl + item_latency_ms d) \<and>
         sink_lines st' = sink_lines st @
           (if sink_writable st then [log_entry d (Some (format_032x root_id))] else [])))"
proof (intro conjI impI)
  assume e: "span_stack st = []"
  then show n: "current_trace_id st = None" by (rule no_span_trace_id)
  show "rec_get (log_entry d (current_trace_id st)) ''trace_id'' = Some JNull"
    by (simp add: n rec_get_trace_id)
  show "\<exists>st'. process_item d (st, bl) = Inr (st', bl + item_latency_ms d) \<and>
         sink_lines st' = sink_lines st @ (if sink_writable st then [log_entry d None] else [])"
    by (simp add: process_item_eq n handler_emit_frame add_packets_out_def add_packets_in_def run_stages_frame)
next
  assume "span_stack st = [] \<and> root_id \<noteq> 0"
  then have e: "span_stack st = []" and r: "root_id \<noteq> 0" by simp_all
  let ?st1 = "start_as_current_span ''process_batch'' root_id st"
  show t: "current_trace_id ?st1 = Some (format_032x root_id)"
    using e r by (rule root_trace_id)
  show "rec_get (log_entry d (Some (format_032x root_id))) ''trace_id'' = Some (JStr (format_032x root_id))"
    by (simp add: rec_get_trace_id)
  show "\<exists>st'. process_item d (?st1, bl) = Inr (st', bl + item_latency_ms d) \<and>
         sink_lines st' = sink_lines st @
           (if sink_writable st then [log_entry d (Some (format_032x root_id))] else [])"
    by (simp add: process_item_eq t handler_emit_frame add_packets_out_def add_packets_in_def
        run_stages_frame start_span_frame)
qed

lemma format_032x_example: "format_032x 255 = ''000000000000000000000000000000ff''"
  by code_simp

theorem log_correlation_identity_witness:
  "span_stack (init_state 0 True) = [] \<and> (255::nat) \<noteq> 0 \<and>
   current_trace_id (init_state 0 True) = None \<and>
   (\<exists>st'. process_item demo_item (init_state 0 True, 0) = Inr (st', 0) \<and>
      sink_lines st' = [log_entry demo_item None]) \<and>
   current_trace_id (start_as_current_span ''process_batch'' 255 (init_state 0 True)) =
     Some ''000000000000000000000000000000ff'' \<and>
   (\<exists>st'. process_item demo_item (start_as_current_span ''process_batch'' 255 (init_state 0 True), 0) =
            Inr (st', 0) \<and>
      sink_lines st' = [log_entry demo_item (Some ''000000000000000000000000000000ff'')])"
proof -
  have h: "span_stack (init_state 0 True) = []" "(255::nat) \<noteq> 0"
    by (simp_all add: init_state_def)
  have z: "sink_lines (init_state 0 True) = []" "sink_writable (init_state 0 True)"
    by (simp_all add: init_state_def)
  note inst = log_correlation_identity [of "init_state 0 True" demo_item 0 255]
  from inst h have a: "current_trace_id (init_state 0 True) = None"
    and b: "\<exists>st'. process_item demo_item (init_state 0 True, 0) = Inr (st', 0 + item_latency_ms demo_item) \<and>
         sink_lines st' = sink_lines (init_state 0 True) @
           (if sink_writable (init_state 0 True) then [log_entry demo_item None] else [])"
    and c: "current_trace_id (start_as_current_span ''process_batch'' 255 (init_state 0 True)) =
        Some (format_032x 255)"
    and d: "\<exists>st'. process_item demo_item (start_as_current_span ''process_batch'' 255 (init_state 0 True), 0) =
               Inr (st', 0 + item_latency_ms demo_item) \<and>
         sink_lines st' = sink_lines (init_state 0 True) @
           (if sink_writable (init_state 0 True) then [log_entry demo_item (Some (format_032x 255))] else [])"
    by blast+
  show ?thesis
    using h a b c d by (simp add: z demo_item_facts format_032x_example)
qed

text \<open>
  C7. In a state whose stores hold every configured entity with its counters, a call of
  \<open>src_gauge_cb\<close> at the time \<open>t\<close> raises nothing, sets \<open>last\<close> of every source to the
  whole seconds of \<open>t\<close>, and leaves \<open>dst_state\<close> as it was. No destination has a field
  \<open>last\<close> in the initial state, and no execution gives it one: every execution from the
  initial state runs to its end, and in its final state \<open>last\<close> is absent of every entry
  of \<open>dst_state\<close>.
\<close>

theorem last_seen_only_sources:
  "(wf_state st \<longrightarrow>
      (\<exists>out st'. src_gauge_cb t rnd st = Inr (out, st') \<and>
         (\<forall>s\<in>set sources. field (src_state st') s ''last'' = Some (py_int t)) \<and>
         dst_state st' = dst_state st)) \<and>
   (\<exists>st'. run ops (init_state start w) = Inr st' \<and>
      (\<forall>d. field (dst_state st') d ''last'' = None))"
proof (intro conjI impI)
  assume "wf_state st"
  then have hs: "has_fields sources [''packets'', ''bytes''] (src_state st)"
    by (simp add: wf_state_def)
  from src_gauge_cb_effect [OF hs, of t rnd] obtain out ss where
    r: "src_gauge_cb t rnd st = Inr (out, st\<lparr>src_state := ss\<rparr>)"
    and each: "\<forall>k<length sources. \<exists>e p b. src_state st (sources ! k) = Some e \<and> e ''packets'' = Some p \<and> e ''bytes'' = Some b \<and>
        ss (sources ! k) = Some (e(''packets'' \<mapsto> p + randint 50 200 (fst (rnd k)),
                              ''bytes'' \<mapsto> b + randint 50 200 (fst (rnd k)) * randint 64 1200 (snd (rnd k)),
                              ''last'' \<mapsto> py_int t))"
    by blast
  have "field ss s ''last'' = Some (py_int t)" if "s \<in> set sources" for s
  proof -
    from that obtain k where k: "k < length sources" "sources ! k = s"
      by (auto simp: in_set_conv_nth)
    from each k obtain e p b where
      "ss s = Some (e(''packets'' \<mapsto> p + randint 50 200 (fst (rnd k)),
                              ''bytes'' \<mapsto> b + randint 50 200 (fst (rnd k)) * randint 64 1200 (snd (rnd k)),
                              ''last'' \<mapsto> py_int t))"
      by blast
    then show ?thesis by (simp add: field_def)
  qed
  then show "\<exists>out st'. src_gauge_cb t rnd st = Inr (out, st') \<and>
         (\<forall>s\<in>set sources. field (src_state st') s ''last'' = Some (py_int t)) \<and>
         dst_state st' = dst_state st"
    using r by (intro exI [of _ out] exI [of _ "st\<lparr>src_state := ss\<rparr>"]) simp
next
  from run_inv [OF wf_init_state, of ops start w] obtain st' where
    "run ops (init_state start w) = Inr st'"
    "\<forall>d. field (dst_state st') d ''last'' = field (dst_state (init_state start w)) d ''last''"
    by blast
  then show "\<exists>st'. run ops (init_state start w) = Inr st' \<and>
      (\<forall>d. field (dst_state st') d ''last'' = None)"
    by (auto simp: init_dst_no_last)
qed

theorem last_seen_only_sources_witness:
  "wf_state (init_state 0 True) \<and>
   (\<exists>out st'. src_gauge_cb 7 (\<lambda>k. (3, 5)) (init_state 0 True) = Inr (out, st') \<and>
      field (src_state st') ''source1'' ''last'' = Some 7 \<and>
      field (src_state st') ''source5'' ''last'' = Some 7 \<and>
      dst_state st' = dst_state (init_state 0 True)) \<and>
   (\<exists>st'. run [DstGaugeCb (\<lambda>k. (3, 5)), SrcGaugeCb 7 (\<lambda>k. (3, 5)), MainIteration 0 1 (\<lambda>i. demo_item)]
             (init_state 0 True) = Inr st' \<and>
      field (dst_state st') ''dest1'' ''last'' = None \<and>
      field (dst_state st') ''dest2'' ''last'' = None)"
proof -
  have wf: "wf_state (init_state 0 True)" by (rule wf_init_state)
  have mem: "''source1'' \<in> set sources" "''source5'' \<in> set sources"
    by (simp_all add: sources_def)
  have v: "py_int 7 = 7" by (simp add: py_int_def)
  note inst = last_seen_only_sources [of "init_state 0 True" 7 "\<lambda>k. (3, 5)"
      "[DstGaugeCb (\<lambda>k. (3, 5)), SrcGaugeCb 7 (\<lambda>k. (3, 5)), MainIteration 0 1 (\<lambda>i. demo_item)]" 0 True]
  from inst wf obtain out st' where
    a: "src_gauge_cb 7 (\<lambda>k. (3, 5)) (init_state 0 True) = Inr (out, st')"
      "\<forall>s\<in>set sources. field (src_state st') s ''last'' = Some (py_int 7)"
      "dst_state st' = dst_state (init_state 0 True)"
    by blast
  from a(2) mem v have b: "field (src_state st') ''source1'' ''last'' = Some 7"
      "field (src_state st') ''source5'' ''last'' = Some 7"
    by auto
  from inst obtain st2 where
    c: "run [DstGaugeCb (\<lambda>k. (3, 5)), SrcGaugeCb 7 (\<lambda>k. (3, 5)), MainIteration 0 1 (\<lambda>i. demo_item)]
          (init_state 0 True) = Inr st2"
      "\<forall>d. field (dst_state st2) d ''last'' = None"
    by blast
  show ?thesis
    using wf a(1,3) b c by blast
qed

subsection \<open>The two totals against each other; levels in the log file\<close>

text \<open>
  C9 does not hold at every point: between line 162 and line 163 of an item the inbound
  total is ahead. In the first pass, after line 162 of a first item of 512 bytes, the
  inbound total is 1 and the outbound total is still 0.
\<close>

theorem totals_differ_mid_item_counterexample:
  "packets_in_total mid_item_state = 1 \<and> packets_out_total mid_item_state = 0 \<and>
   packets_in_total mid_item_state \<noteq> packets_out_total mid_item_state"
  by (simp add: mid_item_state_def add_packets_in_def run_stages_frame set_attribute_frame
      start_span_frame demo_item_facts init_state_def)

text \<open>
  C9, amended. The two totals are equal whenever no item is between its two increments:
  every execution from the initial state runs to its end with equal totals, and a whole
  item, started with equal totals, ends with equal totals. After the first increment of an
  item and before the second, the inbound total is ahead of the outbound total by the
  item's \<open>size // 512\<close>; the second increment closes the gap.
\<close>

theorem totals_equal_between_items:
  "(\<exists>st'. run ops (init_state start w) = Inr st' \<and> packets_in_total st' = packets_out_total st') \<and>
   (packets_in_total st = packets_out_total st \<longrightarrow>
      (\<exists>st'. process_item d (st, bl) = Inr (st', bl + item_latency_ms d) \<and>
         packets_in_total st' = packets_out_total st')) \<and>
   packets_in_total (add_packets_in (item_size d) st) - packets_out_total (add_packets_in (item_size d) st) =
     packets_in_total st - packets_out_total st + item_size d div 512 \<and>
   packets_in_total (add_packets_out (item_size d) (add_packets_in (item_size d) st)) -
     packets_out_total (add_packets_out (item_size d) (add_packets_in (item_size d) st)) =
     packets_in_total st - packets_out_total st"
proof (intro conjI impI)
  from run_inv [OF wf_init_state, of ops start w] obtain st' where
    r: "run ops (init_state start w) = Inr st'"
    by blast
  from run_totals [OF r] have "packets_in_total st' = packets_out_total st'"
    by (simp add: init_state_def)
  with r show "\<exists>st'. run ops (init_state start w) = Inr st' \<and> packets_in_total st' = packets_out_total st'"
    by blast
next
  assume "packets_in_total st = packets_out_total st"
  then show "\<exists>st'. process_item d (st, bl) = Inr (st', bl + item_latency_ms d) \<and>
         packets_in_total st' = packets_out_total st'"
    by (simp add: process_item_eq handler_emit_frame add_packets_out_def add_packets_in_def run_stages_frame)
next
  show "packets_in_total (add_packets_in (item_size d) st) - packets_out_total (add_packets_in (item_size d) st) =
     packets_in_total st - packets_out_total st + item_size d div 512"
    by (simp add: add_packets_in_def)
next
  show "packets_in_total (add_packets_out (item_size d) (add_packets_in (item_size d) st)) -
     packets_out_total (add_packets_out (item_size d) (add_packets_in (item_size d) st)) =
     packets_in_total st - packets_out_total st"
    by (simp add: add_packets_in_def add_packets_out_def)
qed

theorem totals_equal_between_items_witness:
  "packets_in_total (init_state 0 True) = packets_out_total (init_state 0 True) \<and>
   (\<exists>st'. process_item demo_item (init_state 0 True, 0) = Inr (st', 0) \<and>
      packets_in_total st' = packets_out_total st') \<and>
   (\<exists>st'. run [MainIteration 0 1 (\<lambda>i. demo_item), PacketRateCb 9] (init_state 0 True) = Inr st' \<and>
      packets_in_total st' = packets_out_total st')"
proof -
  have h: "packets_in_total (init_state 0 True) = packets_out_total (init_state 0 True)"
    by (simp add: init_state_def)
  note inst = totals_equal_between_items [of "[MainIteration 0 1 (\<lambda>i. demo_item), PacketRateCb 9]" 0 True
      "init_state 0 True" demo_item 0]
  from inst h have a: "\<exists>st'. process_item demo_item (init_state 0 True, 0) = Inr (st', 0 + item_latency_ms demo_item) \<and>
         packets_in_total st' = packets_out_total st'"
    by blast
  from inst have b: "\<exists>st'. run [MainIteration 0 1 (\<lambda>i. demo_item), PacketRateCb 9] (init_state 0 True) = Inr st' \<and>
      packets_in_total st' = packets_out_total st'"
    by blast
  show ?thesis
    using h a b by (simp add: demo_item_facts)
qed

text \<open>
  C10. The record that an item logs has the level \<open>INFO\<close> exactly when its status is
  \<open>ok\<close> and the level \<open>ERROR\<close> exactly when its status is \<open>error\<close>, and its status is one
  of the two. Every execution from the initial state runs to its end, and every record in
  the log file then is such a record.
\<close>

theorem level_determined_by_status:
  "level_matches_status (log_entry d tid) \<and>
   (\<exists>st'. run ops (init_state start w) = Inr st' \<and>
      (\<forall>r\<in>set (sink_lines st'). level_matches_status r))"
proof
  show "level_matches_status (log_entry d tid)" by (rule level_matches_log_entry)
next
  from run_inv [OF wf_init_state, of ops start w] obtain st' rs where
    r: "run ops (init_state start w) = Inr st'"
    and l: "sink_lines st' = sink_lines (init_state start w) @ rs"
    and e: "\<forall>r\<in>set rs. \<exists>d tid. r = log_entry d tid"
    by blast
  have "sink_lines st' = rs" using l by (simp add: init_state_def)
  then have "\<forall>r\<in>set (sink_lines st'). level_matches_status r"
    using e level_matches_log_entry by auto
  with r show "\<exists>st'. run ops (init_state start w) = Inr st' \<and>
      (\<forall>r\<in>set (sink_lines st'). level_matches_status r)"
    by blast
qed

theorem level_determined_by_status_witness:
  "rec_get (log_entry demo_item None) ''status'' = Some (JStr ''error'') \<and>
   rec_get (log_entry demo_item None) ''level'' = Some (JStr ''ERROR'') \<and>
   (\<exists>st'. run [MainIteration 0 1 (\<lambda>i. demo_item)] (init_state 0 True) = Inr st' \<and>
      sink_lines st' = replicate 3 (log_entry demo_item (Some (format_032x 1))) \<and>
      (\<forall>r\<in>set (sink_lines st'). level_matches_status r))"
proof -
  note inst = level_determined_by_status [of demo_item None "[MainIteration 0 1 (\<lambda>i. demo_item)]" 0 True]
  from inst have "level_matches_status (log_entry demo_item None)" by blast
  then have a: "rec_get (log_entry demo_item None) ''status'' = Some (JStr ''error'')"
      "rec_get (log_entry demo_item None) ''level'' = Some (JStr ''ERROR'')"
    by (simp_all add: level_matches_status_def rec_get_status rec_get_level demo_item_facts)
  from inst obtain st' where
    b: "run [MainIteration 0 1 (\<lambda>i. demo_item)] (init_state 0 True) = Inr st'"
      "\<forall>r\<in>set (sink_lines st'). level_matches_status r"
    by blast
  from demo_iteration [of 1 0 True] obtain st2 where
    c: "main_iteration 0 1 (\<lambda>i. demo_item) (init_state 0 True) = Inr st2"
      "sink_lines st2 = (if True then replicate 3 (log_entry demo_item (Some (format_032x 1))) else [])"
    by auto
  have "st2 = st'" using b(1) c(1) by (simp add: bind_err_def)
  then have "sink_lines st' = replicate 3 (log_entry demo_item (Some (format_032x 1)))"
    using c(2) by simp
  then show ?thesis
    using a b by blast
qed

subsection \<open>One pass of the main loop with three items, and the log file\<close>

text \<open>
  C2 does not hold for every pass: the records reach the log file only if the file takes
  writes. In the initial state with an unwritable log file, a pass that draws
  \<open>req_count = 3\<close> runs to its end and the log file holds no record.
\<close>

theorem main_iteration_unwritable_counterexample:
  "req_count 0 = 3 \<and> \<not> sink_writable (init_state 0 False) \<and>
   lines_after (main_iteration 0 1 demo_draws (init_state 0 False)) = Some []"
proof -
  have d: "demo_draws = (\<lambda>i. demo_item)"
    by (rule ext) (simp add: demo_draws_def)
  from demo_iteration [of 1 0 False] obtain st' where
    "main_iteration 0 1 (\<lambda>i. demo_item) (init_state 0 False) = Inr st'" "sink_lines st' = []"
    by auto
  then show ?thesis
    by (simp add: d lines_after_def req_count_def randint_def randbelow_def init_state_def)
qed

text \<open>
  C2, amended. A pass of the main loop that draws \<open>req_count = 3\<close>, started with no span
  open and with a valid (non-zero) identity for the new trace, raises nothing; it adds to
  \<open>packets_in_total\<close> and to \<open>packets_out_total\<close> the sum of \<open>size // 512\<close> over its three
  items and leaves \<open>src_state\<close> and \<open>dst_state\<close> as they were. If the log file takes
  writes, the pass appends exactly three records to it, each with the trace identity of
  the root span, formatted, as its \<open>trace_id\<close> (a string, hence not null); if it does
  not, the pass appends none.
\<close>

theorem main_iteration_three_items:
  assumes "req_count r_req = 3" and "span_stack st = []" and "root_id \<noteq> 0"
  shows "\<exists>st'. main_iteration r_req root_id draws st = Inr st' \<and>
     packets_in_total st' = packets_in_total st +
       (item_size (draws 0) div 512 + item_size (draws 1) div 512 + item_size (draws 2) div 512) \<and>
     packets_out_total st' = packets_out_total st +
       (item_size (draws 0) div 512 + item_size (draws 1) div 512 + item_size (draws 2) div 512) \<and>
     src_state st' = src_state st \<and> dst_state st' = dst_state st \<and>
     sink_lines st' = sink_lines st @
       (if sink_writable st
        then [log_entry (draws 0) (Some (format_032x root_id)),
              log_entry (draws 1) (Some (format_032x root_id)),
              log_entry (draws 2) (Some (format_032x root_id))]
        else []) \<and>
     rec_get (log_entry (draws 0) (Some (format_032x root_id))) ''trace_id'' = Some (JStr (format_032x root_id)) \<and>
     rec_get (log_entry (draws 1) (Some (format_032x root_id))) ''trace_id'' = Some (JStr (format_032x root_id)) \<and>
     rec_get (log_entry (draws 2) (Some (format_032x root_id))) ''trace_id'' = Some (JStr (format_032x root_id))"
proof -
  have n: "nat (req_count r_req) = Suc (Suc (Suc 0))"
    using assms(1) by simp
  have tid: "current_trace_id (start_as_current_span ''process_batch'' root_id st) = Some (format_032x root_id)"
    using assms(2,3) by (rule root_trace_id)
  have three: "[0..<Suc (Suc (Suc 0))] = [0, 1, 2]"
    by (simp add: upt_rec)
  have sum3: "(\<Sum>k<Suc (Suc (Suc 0)). item_size (draws k) div 512) =
      item_size (draws 0) div 512 + item_size (draws 1) div 512 + item_size (draws 2) div 512"
    by (simp add: numeral_2_eq_2)
  from main_iteration_effect [of r_req root_id draws st] obtain st' where
    r: "main_iteration r_req root_id draws st = Inr st'"
    and q: "packets_in_total st' = packets_in_total st + (\<Sum>k<nat (req_count r_req). item_size (draws k) div 512)"
      "packets_out_total st' = packets_out_total st + (\<Sum>k<nat (req_count r_req). item_size (draws k) div 512)"
      "src_state st' = src_state st" "dst_state st' = dst_state st"
      "sink_lines st' = sink_lines st @
       (if sink_writable st
        then map (\<lambda>k. log_entry (draws k) (current_trace_id (start_as_current_span ''process_batch'' root_id st)))
               [0..<nat (req_count r_req)]
        else [])"
    by blast
  have lines: "sink_lines st' = sink_lines st @
       (if sink_writable st
        then [log_entry (draws 0) (Some (format_032x root_id)),
              log_entry (draws 1) (Some (format_032x root_id)),
              log_entry (draws 2) (Some (format_032x root_id))]
        else [])"
    using q(5) by (simp only: n tid three list.map)
  have totals: "packets_in_total st' = packets_in_total st +
       (item_size (draws 0) div 512 + item_size (draws 1) div 512 + item_size (draws 2) div 512)"
     "packets_out_total st' = packets_out_total st +
       (item_size (draws 0) div 512 + item_size (draws 1) div 512 + item_size (draws 2) div 512)"
    using q(1,2) by (simp_all only: n sum3)
  show ?thesis
    using r totals q(3,4) lines by (simp add: rec_get_trace_id)
qed

theorem main_iteration_three_items_witness:
  "req_count 0 = 3 \<and> span_stack (init_state 0 True) = [] \<and> (1::nat) \<noteq> 0 \<and>
   (\<exists>st'. main_iteration 0 1 demo_draws (init_state 0 True) = Inr st' \<and>
      packets_in_total st' = 3 \<and> packets_out_total st' = 3 \<and>
      src_state st' = src_state (init_state 0 True) \<and> dst_state st' = dst_state (init_state 0 True) \<and>
      sink_lines st' = [log_entry demo_item (Some (format_032x 1)),
                        log_entry demo_item (Some (format_032x 1)),
                        log_entry demo_item (Some (format_032x 1))]) \<and>
   (\<exists>st'. main_iteration 0 1 demo_draws (init_state 0 False) = Inr st' \<and>
      packets_in_total st' = 3 \<and> packets_out_total st' = 3 \<and> sink_lines st' = [])"
proof -
  have h1: "req_count 0 = 3" by (simp add: req_count_def randint_def randbelow_def)
  have h2: "span_stack (init_state 0 w) = []" for w by (simp add: init_state_def)
  have h3: "(1::nat) \<noteq> 0" by simp
  have z: "packets_in_total (init_state 0 w) = 0" "packets_out_total (init_state 0 w) = 0"
    "sink_lines (init_state 0 w) = []" "sink_writable (init_state 0 w) = w" for w
    by (simp_all add: init_state_def)
  from main_iteration_three_items [OF h1 h2 [of True] h3, of demo_draws] obtain st' where
    a: "main_iteration 0 1 demo_draws (init_state 0 True) = Inr st'"
    "packets_in_total st' = 3" "packets_out_total st' = 3"
    "src_state st' = src_state (init_state 0 True)" "dst_state st' = dst_state (init_state 0 True)"
    "sink_lines st' = [log_entry demo_item (Some (format_032x 1)),
                        log_entry demo_item (Some (format_032x 1)),
                        log_entry demo_item (Some (format_032x 1))]"
    by (auto simp: demo_item_facts demo_draws_def z)
  from main_iteration_three_items [OF h1 h2 [of False] h3, of demo_draws] obtain st2 where
    b: "main_iteration 0 1 demo_draws (init_state 0 False) = Inr st2"
    "packets_in_total st2 = 3" "packets_out_total st2 = 3" "sink_lines st2 = []"
    by (auto simp: demo_item_facts demo_draws_def z)
  show ?thesis
    using h1 h2 a b by auto
qed

end
